theory Spec2Isabelle
  imports Complex_Main "HOL-Library.Sublist"
begin

section \<open>Strings and the Python runtime\<close>

text \<open>
  A Python \<^verbatim>\<open>str\<close> is a sequence of Unicode code points, so a string is a list of
  naturals (each below \<open>0x110000\<close>); \<open>u\<close> writes an ASCII literal. What \<^verbatim>\<open>app.py\<close>
  takes from libraries and cannot be written down here (the SHA-256 digest, the Unicode
  case and alphanumeric tables beyond ASCII) is a field of the record \<open>py_runtime\<close>;
  every function that reaches one of them takes the runtime as its first argument, and
  the theorems hold for every runtime. On ASCII text the model does not consult the
  Unicode tables at all.
\<close>

type_synonym pystr = "nat list"

definition u :: "string \<Rightarrow> pystr" where
  "u s = map of_char s"

record py_runtime =
  sha256_hexdigest :: "nat list \<Rightarrow> pystr"
    \<comment> \<open>\<^verbatim>\<open>hashlib.sha256(bytes).hexdigest()\<close>\<close>
  unicode_lower :: "pystr \<Rightarrow> pystr"
    \<comment> \<open>\<^verbatim>\<open>str.lower\<close> on a string that has a code point outside ASCII\<close>
  unicode_isalnum :: "nat \<Rightarrow> bool"
    \<comment> \<open>whether a code point outside ASCII is alphanumeric (the class \<^verbatim>\<open>\w\<close>)\<close>

text \<open>A runtime whose tables are trivial, for evaluating the functions on concrete input.\<close>

definition plain_runtime :: py_runtime where
  "plain_runtime =
     \<lparr>sha256_hexdigest = (\<lambda>bs. bs), unicode_lower = (\<lambda>s. s), unicode_isalnum = (\<lambda>c. False)\<rparr>"

text \<open>
  The whitespace of \<^verbatim>\<open>\s\<close> in a \<^verbatim>\<open>str\<close> pattern and of \<^verbatim>\<open>str.strip()\<close>: the ASCII
  controls 9 to 13 and 28 to 31, the space, and the Unicode spaces.
\<close>

definition is_space :: "nat \<Rightarrow> bool" where
  "is_space c =
     ((9 \<le> c \<and> c \<le> 13) \<or> (28 \<le> c \<and> c \<le> 32) \<or> c = 133 \<or> c = 160 \<or> c = 5760
      \<or> (8192 \<le> c \<and> c \<le> 8202) \<or> c = 8232 \<or> c = 8233 \<or> c = 8239 \<or> c = 8287
      \<or> c = 12288)"

text \<open>\<^verbatim>\<open>re.sub(r"\s+", " ", s)\<close>: the flag says that the scan is inside a run of whitespace.\<close>

fun sub_ws :: "bool \<Rightarrow> pystr \<Rightarrow> pystr" where
  "sub_ws in_run [] = []"
| "sub_ws in_run (c # cs) =
     (if is_space c then (if in_run then sub_ws True cs else 32 # sub_ws True cs)
      else c # sub_ws False cs)"

definition strip :: "pystr \<Rightarrow> pystr" where
  "strip s = rev (dropWhile is_space (rev (dropWhile is_space s)))"

definition normalize_whitespace :: "pystr \<Rightarrow> pystr" where
  "normalize_whitespace v = strip (sub_ws False v)"

definition ascii_lower :: "nat \<Rightarrow> nat" where
  "ascii_lower c = (if 65 \<le> c \<and> c \<le> 90 then c + 32 else c)"

definition lower :: "py_runtime \<Rightarrow> pystr \<Rightarrow> pystr" where
  "lower rt s = (if list_all (\<lambda>c. c < 128) s then map ascii_lower s else unicode_lower rt s)"

text \<open>
  \<^verbatim>\<open>value.encode("utf-8", errors="ignore")\<close>: one to four bytes per code point; a
  surrogate cannot be encoded and is dropped.
\<close>

definition utf8_char :: "nat \<Rightarrow> nat list" where
  "utf8_char c =
     (if c < 128 then [c]
      else if c < 2048 then [192 + c div 64, 128 + c mod 64]
      else if 55296 \<le> c \<and> c \<le> 57343 then []
      else if c < 65536 then [224 + c div 4096, 128 + (c div 64) mod 64, 128 + c mod 64]
      else [240 + c div 262144, 128 + (c div 4096) mod 64, 128 + (c div 64) mod 64,
            128 + c mod 64])"

definition encode_utf8_ignore :: "pystr \<Rightarrow> nat list" where
  "encode_utf8_ignore s = concat (map utf8_char s)"

definition text_hash :: "py_runtime \<Rightarrow> pystr \<Rightarrow> pystr" where
  "text_hash rt v = sha256_hexdigest rt (encode_utf8_ignore v)"

section \<open>Comment identity\<close>

text \<open>The string that \<^verbatim>\<open>make_comment_key\<close> formats and hashes; 124 is the bar.\<close>

definition key_string :: "py_runtime \<Rightarrow> pystr \<Rightarrow> pystr \<Rightarrow> pystr" where
  "key_string rt a t =
     lower rt (normalize_whitespace a) @ [124] @ lower rt (normalize_whitespace t)"

definition make_comment_key :: "py_runtime \<Rightarrow> pystr \<Rightarrow> pystr \<Rightarrow> pystr" where
  "make_comment_key rt a t = text_hash rt (key_string rt a t)"

text \<open>The case-insensitive, whitespace-normalized pair of a record.\<close>

definition normalized_pair :: "py_runtime \<Rightarrow> pystr \<Rightarrow> pystr \<Rightarrow> pystr \<times> pystr" where
  "normalized_pair rt a t = (lower rt (normalize_whitespace a), lower rt (normalize_whitespace t))"

section \<open>Comment records and the merge\<close>

text \<open>
  An analysed comment: the dictionary with the seven keys of \<^verbatim>\<open>CSV_FIELDS\<close> that
  \<^verbatim>\<open>normalize_rows\<close> builds. The score is an exact real number here; Python holds the
  double nearest to it.
\<close>

record comment =
  author :: pystr
  timestamp :: pystr
  text_str :: pystr
  lang :: pystr
  sentiment :: pystr
  sentiment_score :: real
  summary :: pystr

definition row_key :: "py_runtime \<Rightarrow> comment \<Rightarrow> pystr" where
  "row_key rt row = make_comment_key rt (author row) (text_str row)"

text \<open>
  The loop of \<^verbatim>\<open>merge_with_existing\<close> over \<^verbatim>\<open>new_rows + existing_rows\<close>, with its two
  variables \<^verbatim>\<open>merged\<close> and \<^verbatim>\<open>seen\<close>.
\<close>

fun merge_loop :: "py_runtime \<Rightarrow> comment list \<Rightarrow> pystr set \<Rightarrow> comment list \<Rightarrow> comment list" where
  "merge_loop rt merged seen [] = merged"
| "merge_loop rt merged seen (row # rows) =
     (let key = row_key rt row in
      if key \<in> seen then merge_loop rt merged seen rows
      else merge_loop rt (merged @ [row]) (insert key seen) rows)"

definition merge_with_existing :: "py_runtime \<Rightarrow> comment list \<Rightarrow> comment list \<Rightarrow> comment list" where
  "merge_with_existing rt new_rows existing_rows = merge_loop rt [] {} (new_rows @ existing_rows)"

section \<open>Summary\<close>

text \<open>The slice \<^verbatim>\<open>s[:k]\<close>; a negative \<open>k\<close> counts from the end.\<close>

definition slice_to :: "pystr \<Rightarrow> int \<Rightarrow> pystr" where
  "slice_to s k = (if 0 \<le> k then take (nat k) s else take (length s - nat (- k)) s)"

text \<open>\<^verbatim>\<open>cut.rsplit(" ", 1)[0]\<close>: what stands before the last space, or all of it.\<close>

definition rsplit_space_head :: "pystr \<Rightarrow> pystr" where
  "rsplit_space_head s =
     (if 32 \<in> set s then rev (tl (dropWhile (\<lambda>c. c \<noteq> 32) (rev s))) else s)"

definition short_summary :: "pystr \<Rightarrow> int \<Rightarrow> pystr" where
  "short_summary txt max_chars =
     (let cleaned = normalize_whitespace txt in
      if int (length cleaned) \<le> max_chars then cleaned
      else (let cut0 = slice_to cleaned (max_chars - 3);
                cut1 = (if 32 \<in> set cut0 then rsplit_space_head cut0 else cut0)
            in cut1 @ u ''...''))"

text \<open>Every call in \<^verbatim>\<open>app.py\<close> leaves \<^verbatim>\<open>max_chars\<close> at its default.\<close>

definition default_max_chars :: int where
  "default_max_chars = 220"

section \<open>Heuristic sentiment\<close>

definition POSITIVE_WORDS :: "pystr list" where
  "POSITIVE_WORDS = map u
     [''good'', ''great'', ''excellent'', ''awesome'', ''amazing'', ''helpful'', ''best'',
      ''love'', ''support'', ''thank'', ''thanks'', ''semma'', ''vera'', ''level'',
      ''verithanam'', ''super'', ''nice'', ''improve'', ''improved'', ''useful'']"

definition NEGATIVE_WORDS :: "pystr list" where
  "NEGATIVE_WORDS = map u
     [''bad'', ''worst'', ''poor'', ''waste'', ''useless'', ''issue'', ''problem'', ''bug'',
      ''hate'', ''slow'', ''broken'', ''mokkai'', ''not'', ''spam'', ''fake'', ''difficult'',
      ''error'', ''dislike'', ''delay'']"

text \<open>
  The emoji of the two \<^verbatim>\<open>count\<close> lists, as code points. The red heart stands twice in
  the positive list, with and without the variation selector \<open>U+FE0F\<close>.
\<close>

definition POSITIVE_EMOJI :: "pystr list" where
  "POSITIVE_EMOJI =
     [[128512], [128516], [128522], [128077], [10084, 65039], [10084], [128293], [128079],
      [128591]]"

definition NEGATIVE_EMOJI :: "pystr list" where
  "NEGATIVE_EMOJI = [[128545], [128542], [128078], [128148], [128546], [128557]]"

definition DEFAULT_SENTIMENT_SCORE :: "pystr \<Rightarrow> real" where
  "DEFAULT_SENTIMENT_SCORE label =
     (if label = u ''positive'' then 0.62 else if label = u ''negative'' then 0.62
      else if label = u ''neutral'' then 0.50 else 0.00)"

definition is_ascii_alpha :: "nat \<Rightarrow> bool" where
  "is_ascii_alpha c = ((65 \<le> c \<and> c \<le> 90) \<or> (97 \<le> c \<and> c \<le> 122))"

text \<open>\<^verbatim>\<open>re.findall(r"[a-zA-Z']+", s)\<close>: the maximal runs of letters and apostrophes.\<close>

fun findall_words :: "pystr \<Rightarrow> pystr \<Rightarrow> pystr list" where
  "findall_words cur [] = (if cur = [] then [] else [cur])"
| "findall_words cur (c # cs) =
     (if is_ascii_alpha c \<or> c = 39 then findall_words (cur @ [c]) cs
      else if cur = [] then findall_words [] cs
      else cur # findall_words [] cs)"

text \<open>The loop over the tokens, with its two counters.\<close>

fun count_tokens :: "pystr list \<Rightarrow> real \<times> real \<Rightarrow> real \<times> real" where
  "count_tokens [] (pos, neg) = (pos, neg)"
| "count_tokens (token # rest) (pos, neg) =
     count_tokens rest
       (if token \<in> set POSITIVE_WORDS then pos + 1 else pos,
        if token \<in> set NEGATIVE_WORDS then neg + 1 else neg)"

text \<open>\<^verbatim>\<open>s.count(sub)\<close>: the occurrences of \<open>sub\<close> in \<open>s\<close> that do not overlap.\<close>

fun str_count :: "pystr \<Rightarrow> pystr \<Rightarrow> nat" where
  "str_count sub [] = (if sub = [] then 1 else 0)"
| "str_count sub (c # cs) =
     (if sub = [] then Suc (str_count sub cs)
      else if prefix sub (c # cs) then Suc (str_count sub (drop (length sub - 1) cs))
      else str_count sub cs)"

text \<open>
  The class \<^verbatim>\<open>\w\<close> of a \<^verbatim>\<open>str\<close> pattern, and the assertion \<^verbatim>\<open>\b\<close> between the
  character before a position and the one after it (\<open>None\<close> at either end of the string).
\<close>

definition is_word_char :: "py_runtime \<Rightarrow> nat \<Rightarrow> bool" where
  "is_word_char rt c =
     (if c < 128 then (48 \<le> c \<and> c \<le> 57) \<or> is_ascii_alpha c \<or> c = 95
      else unicode_isalnum rt c)"

definition word_boundary :: "py_runtime \<Rightarrow> nat option \<Rightarrow> nat option \<Rightarrow> bool" where
  "word_boundary rt before after =
     ((case before of None \<Rightarrow> False | Some c \<Rightarrow> is_word_char rt c)
      \<noteq> (case after of None \<Rightarrow> False | Some c \<Rightarrow> is_word_char rt c))"

definition next_char :: "pystr \<Rightarrow> nat option" where
  "next_char s = (case s of [] \<Rightarrow> None | c # _ \<Rightarrow> Some c)"

text \<open>The remainders of \<open>s\<close> after each alternative of a group \<^verbatim>\<open>(w1|w2|...)\<close> that matches.\<close>

definition match_alternatives :: "pystr list \<Rightarrow> pystr \<Rightarrow> pystr list" where
  "match_alternatives ws s = map (\<lambda>w. drop (length w) s) (filter (\<lambda>w. prefix w s) ws)"

text \<open>
  A match of \<^verbatim>\<open>(w1|...)\s+(v1|...)\b\<close> at the head of \<open>s\<close>. The second group starts with a
  letter, so \<^verbatim>\<open>\s+\<close> can only match the whole run of whitespace; every word of the second
  group ends with a letter, so the closing \<^verbatim>\<open>\b\<close> asks that no word character follows.
\<close>

definition match_negation_here :: "py_runtime \<Rightarrow> pystr list \<Rightarrow> pystr list \<Rightarrow> pystr \<Rightarrow> bool" where
  "match_negation_here rt firsts seconds s =
     list_ex (\<lambda>r1. let r2 = dropWhile is_space r1 in
                r2 \<noteq> r1 \<and>
                list_ex (\<lambda>r3. word_boundary rt (Some 97) (next_char r3))
                  (match_alternatives seconds r2))
       (match_alternatives firsts s)"

text \<open>
  \<^verbatim>\<open>re.search(r"\b(w1|...)\s+(v1|...)\b", s)\<close>, scanning with the character before the
  position. The first group starts with a letter, so the opening \<^verbatim>\<open>\b\<close> asks that no word
  character stands before.
\<close>

fun search_negation :: "py_runtime \<Rightarrow> pystr list \<Rightarrow> pystr list \<Rightarrow> nat option \<Rightarrow> pystr \<Rightarrow> bool" where
  "search_negation rt firsts seconds before [] = False"
| "search_negation rt firsts seconds before (c # cs) =
     ((word_boundary rt before (Some 97) \<and> match_negation_here rt firsts seconds (c # cs))
      \<or> search_negation rt firsts seconds (Some c) cs)"

definition NEGATORS :: "pystr list" where
  "NEGATORS = map u [''not'', ''no'', ''never'']"

definition NEGATED_GOOD :: "pystr list" where
  "NEGATED_GOOD = map u [''good'', ''great'', ''excellent'', ''super'', ''nice'']"

definition NEGATED_BAD :: "pystr list" where
  "NEGATED_BAD = map u [''bad'', ''poor'', ''waste'', ''worst'']"

text \<open>
  The two counters of \<^verbatim>\<open>heuristic_sentiment\<close> after the tokens, the emoji and the two
  negation rules, for the lower-cased text.
\<close>

definition sentiment_counts :: "py_runtime \<Rightarrow> pystr \<Rightarrow> real \<times> real" where
  "sentiment_counts rt lowered =
     (let wordlist = findall_words [] lowered;
          (pos0, neg0) = count_tokens wordlist (0, 0);
          pos1 = pos0 + real (sum_list (map (\<lambda>x. str_count x lowered) POSITIVE_EMOJI)) * 0.5;
          neg1 = neg0 + real (sum_list (map (\<lambda>x. str_count x lowered) NEGATIVE_EMOJI)) * 0.5;
          neg2 = (if search_negation rt NEGATORS NEGATED_GOOD None lowered then neg1 + 1 else neg1);
          pos2 = (if search_negation rt NEGATORS NEGATED_BAD None lowered then pos1 + 1 else pos1)
      in (pos2, neg2))"

definition sentiment_delta :: "py_runtime \<Rightarrow> pystr \<Rightarrow> real" where
  "sentiment_delta rt lowered = (case sentiment_counts rt lowered of (pos, neg) \<Rightarrow> pos - neg)"

text \<open>\<^verbatim>\<open>re.search(r"[a-zA-Z\u0900-\u0D7F]", s)\<close>.\<close>

definition has_alphabetic :: "pystr \<Rightarrow> bool" where
  "has_alphabetic s = list_ex (\<lambda>c. is_ascii_alpha c \<or> (2304 \<le> c \<and> c \<le> 3455)) s"

text \<open>\<^verbatim>\<open>round(x, 4)\<close>: to the nearest multiple of \<open>1/10000\<close>, a tie to the even one.\<close>

definition round_half_even :: "real \<Rightarrow> int" where
  "round_half_even x =
     (let f = \<lfloor>x\<rfloor>; d = x - of_int f in
      if d < 1/2 then f else if 1/2 < d then f + 1 else if even f then f else f + 1)"

definition round4 :: "real \<Rightarrow> real" where
  "round4 x = of_int (round_half_even (x * 10000)) / 10000"

record sentiment_result =
  sr_sentiment :: pystr
  sr_score :: real

definition heuristic_sentiment :: "py_runtime \<Rightarrow> pystr \<Rightarrow> sentiment_result" where
  "heuristic_sentiment rt txt =
     (let cleaned = normalize_whitespace txt in
      if cleaned = [] then
        \<lparr>sr_sentiment = u ''unknown'', sr_score = DEFAULT_SENTIMENT_SCORE (u ''unknown'')\<rparr>
      else
        (let lowered = lower rt cleaned in
         if length lowered \<le> 3 then
           \<lparr>sr_sentiment = u ''unknown'', sr_score = DEFAULT_SENTIMENT_SCORE (u ''unknown'')\<rparr>
         else
           (let delta = sentiment_delta rt lowered;
                label = (if 0.35 < delta then u ''positive''
                         else if delta < - 0.35 then u ''negative''
                         else if has_alphabetic lowered then u ''neutral''
                         else u ''unknown'');
                score = (if label = u ''positive'' \<or> label = u ''negative''
                         then min 0.99 (0.55 + min \<bar>delta\<bar> 5.0 * 0.08)
                         else DEFAULT_SENTIMENT_SCORE label)
            in \<lparr>sr_sentiment = label, sr_score = round4 score\<rparr>)))"

section \<open>Language from the script\<close>

text \<open>\<^verbatim>\<open>SCRIPT_PATTERNS\<close>: each pattern is one range of code points.\<close>

definition SCRIPT_PATTERNS :: "(nat \<times> nat \<times> pystr) list" where
  "SCRIPT_PATTERNS =
     [(2304, 2431, u ''Hindi''), (2432, 2559, u ''Bengali''), (2560, 2687, u ''Punjabi''),
      (2688, 2815, u ''Gujarati''), (2816, 2943, u ''Odia''), (2944, 3071, u ''Tamil''),
      (3072, 3199, u ''Telugu''), (3200, 3327, u ''Kannada''), (3328, 3455, u ''Malayalam''),
      (1536, 1791, u ''Urdu'')]"

fun first_script :: "(nat \<times> nat \<times> pystr) list \<Rightarrow> pystr \<Rightarrow> pystr option" where
  "first_script [] txt = None"
| "first_script ((lo, hi, language) # rest) txt =
     (if list_ex (\<lambda>c. lo \<le> c \<and> c \<le> hi) txt then Some language else first_script rest txt)"

definition detect_language_from_script :: "pystr \<Rightarrow> pystr" where
  "detect_language_from_script txt =
     (case first_script SCRIPT_PATTERNS txt of
        Some language \<Rightarrow> language
      | None \<Rightarrow> if list_ex is_ascii_alpha txt then u ''English'' else u ''Unknown'')"

section \<open>Scraped rows and pagination\<close>

text \<open>
  A row as the extractor or the CSV reader hands it over: a dictionary whose keys may be
  missing. A field is \<open>None\<close> when the key is absent or its value is \<^verbatim>\<open>None\<close>; the
  functions below treat the two alike. The extractor fills the first three fields only.
\<close>

record raw_row =
  raw_author :: "pystr option"
  raw_timestamp :: "pystr option"
  raw_text :: "pystr option"
  raw_lang :: "pystr option"
  raw_sentiment :: "pystr option"
  raw_sentiment_score :: "pystr option"
  raw_summary :: "pystr option"

text \<open>\<^verbatim>\<open>row.get(key, default)\<close>, followed by the \<^verbatim>\<open>str(value or "")\<close> of its consumer.\<close>

definition get_or :: "pystr option \<Rightarrow> pystr \<Rightarrow> pystr" where
  "get_or v d = (case v of None \<Rightarrow> d | Some s \<Rightarrow> s)"

definition raw_key :: "py_runtime \<Rightarrow> raw_row \<Rightarrow> pystr" where
  "raw_key rt row = make_comment_key rt (get_or (raw_author row) []) (get_or (raw_text row) [])"

text \<open>An exception, with the message that \<^verbatim>\<open>str(exc)\<close> gives.\<close>

datatype exn = Exn pystr

text \<open>
  The site, as the scraper sees it: whether fetching the source page and reading its view
  parameters raises, and for each page token what \<^verbatim>\<open>fetch_ajax_page\<close> followed by
  \<^verbatim>\<open>extract_comments_from_html\<close> gives, or the exception that the request raises.
\<close>

record site =
  root_failure :: "exn option"
  fetch_page :: "pystr \<Rightarrow> exn + raw_row list"

text \<open>\<^verbatim>\<open>str(n)\<close> for a natural number.\<close>

fun str_nat :: "nat \<Rightarrow> pystr" where
  "str_nat n = (if n < 10 then [48 + n] else str_nat (n div 10) @ [48 + n mod 10])"

declare str_nat.simps [simp del]

definition page_tokens :: "nat \<Rightarrow> pystr list" where
  "page_tokens page_index =
     (if page_index = 0 then [u ''0''] else [u ''0,'' @ str_nat page_index, str_nat page_index])"

text \<open>
  The inner loop over the tokens of one page index: the first extraction that is not
  empty, with the tokens requested on the way.
\<close>

fun try_tokens :: "site \<Rightarrow> pystr list \<Rightarrow> exn + (raw_row list \<times> pystr list)" where
  "try_tokens w [] = Inr ([], [])"
| "try_tokens w (token # rest) =
     (case fetch_page w token of
        Inl e \<Rightarrow> Inl e
      | Inr extracted \<Rightarrow>
          if extracted \<noteq> [] then Inr (extracted, [token])
          else (case try_tokens w rest of
                  Inl e \<Rightarrow> Inl e
                | Inr (page_rows, requested) \<Rightarrow> Inr (page_rows, token # requested)))"

text \<open>
  The variables of \<^verbatim>\<open>scrape_comments_paginated\<close>, and the tokens requested so far, which
  the code does not keep.
\<close>

record scrape_state =
  collected :: "raw_row list"
  seen_keys :: "pystr set"
  empty_streak :: nat
  requested_tokens :: "pystr list"

text \<open>The loop over the rows of one page, with \<^verbatim>\<open>new_in_page\<close> as third component.\<close>

fun add_new_rows ::
  "py_runtime \<Rightarrow> raw_row list \<Rightarrow> raw_row list \<times> pystr set \<times> nat \<Rightarrow> raw_row list \<times> pystr set \<times> nat" where
  "add_new_rows rt [] (coll, seen, new_in_page) = (coll, seen, new_in_page)"
| "add_new_rows rt (row # rows) (coll, seen, new_in_page) =
     (let key = raw_key rt row in
      if key \<in> seen then add_new_rows rt rows (coll, seen, new_in_page)
      else add_new_rows rt rows (coll @ [row], insert key seen, new_in_page + 1))"

text \<open>
  The loop over the page indexes that are left. \<open>Inr\<close> is the state at the \<^verbatim>\<open>break\<close> or
  at the end of the range, \<open>Inl\<close> the exception of a request.
\<close>

fun paginate :: "py_runtime \<Rightarrow> site \<Rightarrow> nat list \<Rightarrow> scrape_state \<Rightarrow> exn + scrape_state" where
  "paginate rt w [] st = Inr st"
| "paginate rt w (page_index # rest) st =
     (case try_tokens w (page_tokens page_index) of
        Inl e \<Rightarrow> Inl e
      | Inr (page_rows, requested) \<Rightarrow>
          if page_rows = [] then
            (let st1 = st\<lparr>empty_streak := empty_streak st + 1,
                          requested_tokens := requested_tokens st @ requested\<rparr>
             in if page_index > 0 \<and> empty_streak st1 \<ge> 2 then Inr st1
                else paginate rt w rest st1)
          else
            (case add_new_rows rt page_rows (collected st, seen_keys st, 0) of
               (coll, seen, new_in_page) \<Rightarrow>
                 (let st1 = \<lparr>collected = coll, seen_keys = seen, empty_streak = 0,
                             requested_tokens = requested_tokens st @ requested\<rparr>
                  in if page_index > 0 \<and> new_in_page = 0 then Inr st1
                     else paginate rt w rest st1)))"

definition initial_scrape_state :: scrape_state where
  "initial_scrape_state = \<lparr>collected = [], seen_keys = {}, empty_streak = 0, requested_tokens = []\<rparr>"

text \<open>The run of \<^verbatim>\<open>scrape_comments_paginated\<close> up to its \<^verbatim>\<open>return\<close>, for a page cap.\<close>

definition scrape_run :: "py_runtime \<Rightarrow> site \<Rightarrow> int \<Rightarrow> exn + scrape_state" where
  "scrape_run rt w max_pages =
     (case root_failure w of
        Some e \<Rightarrow> Inl e
      | None \<Rightarrow> paginate rt w [0..<nat max_pages] initial_scrape_state)"

definition scrape_comments_paginated :: "py_runtime \<Rightarrow> site \<Rightarrow> int \<Rightarrow> exn + raw_row list" where
  "scrape_comments_paginated rt w max_pages =
     (case scrape_run rt w max_pages of Inl e \<Rightarrow> Inl e | Inr st \<Rightarrow> Inr (collected st))"

section \<open>Refresh state\<close>

text \<open>
  The dictionary of one source in \<^verbatim>\<open>_site_states\<close>. A time is a number of seconds; the
  code keeps \<^verbatim>\<open>last_updated\<close> as the ISO string of a time and reads it back with
  \<^verbatim>\<open>fromisoformat\<close>, which here is the time itself.
\<close>

record site_state =
  source_name :: pystr
  comments :: "comment list"
  last_updated :: "real option"
  in_progress :: bool
  last_error :: "pystr option"

text \<open>
  How \<^verbatim>\<open>scrape_and_analyze_source\<close> ends inside \<^verbatim>\<open>refresh_site_state\<close>: it returns the
  merged rows, it raises an \<^verbatim>\<open>Exception\<close>, or the thread is interrupted by something
  that \<^verbatim>\<open>except Exception\<close> does not catch.
\<close>

datatype scrape_outcome = Scraped "comment list" | Failed exn | Interrupted

definition exn_message :: "exn \<Rightarrow> pystr" where
  "exn_message e = (case e of Exn m \<Rightarrow> m)"

text \<open>
  The four blocks of \<^verbatim>\<open>refresh_site_state\<close> that hold \<^verbatim>\<open>_state_lock\<close>. The first gives
  \<open>None\<close> when the function returns at once.
\<close>

definition refresh_begin :: "site_state \<Rightarrow> site_state option" where
  "refresh_begin state =
     (if in_progress state then None
      else Some (state\<lparr>in_progress := True, last_error := None\<rparr>))"

definition refresh_success :: "comment list \<Rightarrow> real \<Rightarrow> site_state \<Rightarrow> site_state" where
  "refresh_success merged_rows now state =
     state\<lparr>comments := merged_rows, last_updated := Some now, last_error := None\<rparr>"

definition refresh_failure :: "exn \<Rightarrow> site_state \<Rightarrow> site_state" where
  "refresh_failure exc state = state\<lparr>last_error := Some (exn_message exc)\<rparr>"

definition refresh_finally :: "site_state \<Rightarrow> site_state" where
  "refresh_finally state = state\<lparr>in_progress := False\<rparr>"

text \<open>The block of the \<^verbatim>\<open>try\<close> statement that the outcome selects.\<close>

definition refresh_settle :: "scrape_outcome \<Rightarrow> real \<Rightarrow> site_state \<Rightarrow> site_state" where
  "refresh_settle outcome now state =
     (case outcome of
        Scraped merged_rows \<Rightarrow> refresh_success merged_rows now state
      | Failed exc \<Rightarrow> refresh_failure exc state
      | Interrupted \<Rightarrow> state)"

text \<open>
  \<^verbatim>\<open>refresh_site_state\<close> when nothing else touches the state of the source between its
  blocks; \<open>now\<close> is the time at which the scrape returns.
\<close>

definition refresh_site_state :: "scrape_outcome \<Rightarrow> real \<Rightarrow> site_state \<Rightarrow> site_state" where
  "refresh_site_state outcome now state =
     (case refresh_begin state of
        None \<Rightarrow> state
      | Some started \<Rightarrow> refresh_finally (refresh_settle outcome now started))"

text \<open>\<^verbatim>\<open>should_refresh\<close>, with the refresh interval and the current time.\<close>

definition should_refresh :: "int \<Rightarrow> real \<Rightarrow> real option \<Rightarrow> bool" where
  "should_refresh refresh_interval now updated =
     (case updated of None \<Rightarrow> True | Some updated_at \<Rightarrow> now - updated_at \<ge> of_int refresh_interval)"

section \<open>Threads\<close>

text \<open>
  A thread that runs \<^verbatim>\<open>refresh_site_state\<close> is between two of its blocks: started and
  not yet in the first block, in the scrape, or before the \<^verbatim>\<open>finally\<close> block. The system
  is the dictionary of the states (only configured source ids are ever passed, so it is a
  total function here) and the threads that have not returned. A block under
  \<^verbatim>\<open>_state_lock\<close> is one step.
\<close>

datatype position = Spawned | Scraping | Finalizing

record thread =
  thread_source :: pystr
  thread_position :: position

record system =
  states :: "pystr \<Rightarrow> site_state"
  threads :: "thread list"

text \<open>
  \<^verbatim>\<open>trigger_refresh_if_needed\<close>: the value returned, and the system with the thread that
  \<^verbatim>\<open>thread.start()\<close> adds.
\<close>

definition trigger_refresh_if_needed ::
  "int \<Rightarrow> real \<Rightarrow> system \<Rightarrow> pystr \<Rightarrow> bool \<Rightarrow> bool \<times> system" where
  "trigger_refresh_if_needed refresh_interval now sys source_id force =
     (let state = states sys source_id in
      if in_progress state then (False, sys)
      else if \<not> force \<and> \<not> should_refresh refresh_interval now (last_updated state)
      then (False, sys)
      else (True, sys\<lparr>threads := threads sys
                        @ [\<lparr>thread_source = source_id, thread_position = Spawned\<rparr>]\<rparr>))"

text \<open>The steps of a thread standing at index \<open>k\<close> of the thread list.\<close>

definition thread_begin :: "system \<Rightarrow> nat \<Rightarrow> system" where
  "thread_begin sys k =
     (let t = threads sys ! k; source_id = thread_source t in
      case refresh_begin (states sys source_id) of
        None \<Rightarrow> sys\<lparr>threads := take k (threads sys) @ drop (Suc k) (threads sys)\<rparr>
      | Some started \<Rightarrow>
          sys\<lparr>states := (states sys)(source_id := started),
              threads := (threads sys)[k := t\<lparr>thread_position := Scraping\<rparr>]\<rparr>)"

definition thread_settle :: "scrape_outcome \<Rightarrow> real \<Rightarrow> system \<Rightarrow> nat \<Rightarrow> system" where
  "thread_settle outcome now sys k =
     (let t = threads sys ! k; source_id = thread_source t in
      sys\<lparr>states := (states sys)(source_id := refresh_settle outcome now (states sys source_id)),
          threads := (threads sys)[k := t\<lparr>thread_position := Finalizing\<rparr>]\<rparr>)"

definition thread_finally :: "system \<Rightarrow> nat \<Rightarrow> system" where
  "thread_finally sys k =
     (let t = threads sys ! k; source_id = thread_source t in
      sys\<lparr>states := (states sys)(source_id := refresh_finally (states sys source_id)),
          threads := take k (threads sys) @ drop (Suc k) (threads sys)\<rparr>)"

text \<open>
  The systems that the server can reach: it starts with no thread and no refresh in
  progress; a request or the start-up triggers a refresh, or a thread takes its next step.
\<close>

inductive reachable :: "int \<Rightarrow> system \<Rightarrow> bool" for refresh_interval :: int where
  at_start: "\<lbrakk>threads sys = []; \<And>source_id. \<not> in_progress (states sys source_id)\<rbrakk>
            \<Longrightarrow> reachable refresh_interval sys"
| after_trigger: "\<lbrakk>reachable refresh_interval sys;
             trigger_refresh_if_needed refresh_interval now sys source_id force = (started, sys')\<rbrakk>
            \<Longrightarrow> reachable refresh_interval sys'"
| after_begin: "\<lbrakk>reachable refresh_interval sys; k < length (threads sys);
           thread_position (threads sys ! k) = Spawned\<rbrakk>
            \<Longrightarrow> reachable refresh_interval (thread_begin sys k)"
| after_settle: "\<lbrakk>reachable refresh_interval sys; k < length (threads sys);
            thread_position (threads sys ! k) = Scraping\<rbrakk>
            \<Longrightarrow> reachable refresh_interval (thread_settle outcome now sys k)"
| after_finally: "\<lbrakk>reachable refresh_interval sys; k < length (threads sys);
             thread_position (threads sys ! k) = Finalizing\<rbrakk>
            \<Longrightarrow> reachable refresh_interval (thread_finally sys k)"

text \<open>The threads of a source that are inside a refresh.\<close>

definition refreshing :: "system \<Rightarrow> pystr \<Rightarrow> thread list" where
  "refreshing sys source_id =
     filter (\<lambda>t. thread_source t = source_id \<and> thread_position t \<noteq> Spawned) (threads sys)"

section \<open>Cleaning and filtering\<close>

text \<open>
  \<^verbatim>\<open>bytes.decode("utf-8")\<close>: \<open>None\<close> when it raises. A sequence of two, three or four bytes
  is refused when a continuation byte is missing or the code point could be written
  shorter, is a surrogate or lies above \<open>0x10FFFF\<close>.
\<close>

definition is_continuation :: "nat \<Rightarrow> bool" where
  "is_continuation b = (128 \<le> b \<and> b \<le> 191)"

fun decode_utf8 :: "nat list \<Rightarrow> pystr option" where
  "decode_utf8 [] = Some []"
| "decode_utf8 [b] = (if b < 128 then Some [b] else None)"
| "decode_utf8 [b, b1] =
     (if b < 128 then map_option ((#) b) (decode_utf8 [b1])
      else if 194 \<le> b \<and> b \<le> 223 \<and> is_continuation b1
      then Some [(b - 192) * 64 + (b1 - 128)] else None)"
| "decode_utf8 [b, b1, b2] =
     (if b < 128 then map_option ((#) b) (decode_utf8 [b1, b2])
      else if 194 \<le> b \<and> b \<le> 223 \<and> is_continuation b1
      then map_option ((#) ((b - 192) * 64 + (b1 - 128))) (decode_utf8 [b2])
      else (let c = (b - 224) * 4096 + (b1 - 128) * 64 + (b2 - 128) in
            if 224 \<le> b \<and> b \<le> 239 \<and> is_continuation b1 \<and> is_continuation b2
               \<and> 2048 \<le> c \<and> \<not> (55296 \<le> c \<and> c \<le> 57343)
            then Some [c] else None))"
| "decode_utf8 (b # b1 # b2 # b3 # bs) =
     (if b < 128 then map_option ((#) b) (decode_utf8 (b1 # b2 # b3 # bs))
      else if 194 \<le> b \<and> b \<le> 223 \<and> is_continuation b1
      then map_option ((#) ((b - 192) * 64 + (b1 - 128))) (decode_utf8 (b2 # b3 # bs))
      else (let c = (b - 224) * 4096 + (b1 - 128) * 64 + (b2 - 128) in
            if 224 \<le> b \<and> b \<le> 239 \<and> is_continuation b1 \<and> is_continuation b2
               \<and> 2048 \<le> c \<and> \<not> (55296 \<le> c \<and> c \<le> 57343)
            then map_option ((#) c) (decode_utf8 (b3 # bs))
            else (let d = (b - 240) * 262144 + (b1 - 128) * 4096 + (b2 - 128) * 64 + (b3 - 128) in
                  if 240 \<le> b \<and> b \<le> 244 \<and> is_continuation b1 \<and> is_continuation b2
                     \<and> is_continuation b3 \<and> 65536 \<le> d \<and> d \<le> 1114111
                  then map_option ((#) d) (decode_utf8 bs) else None)))"

text \<open>
  \<^verbatim>\<open>fix_mojibake\<close>. The three marks are \<open>U+00C3\<close>, \<open>U+00C2\<close> and \<open>U+00E2\<close>;
  \<^verbatim>\<open>encode("latin1")\<close> raises on a code point above 255 and otherwise gives the code
  points as bytes.
\<close>

definition fix_mojibake :: "pystr \<Rightarrow> pystr" where
  "fix_mojibake txt =
     (let cleaned = normalize_whitespace txt in
      if cleaned = [] then []
      else if 195 \<in> set cleaned \<or> 194 \<in> set cleaned \<or> 226 \<in> set cleaned then
        (if list_all (\<lambda>c. c < 256) cleaned then
           (case decode_utf8 cleaned of
              Some repaired \<Rightarrow> normalize_whitespace repaired
            | None \<Rightarrow> cleaned)
         else cleaned)
      else cleaned)"

text \<open>
  What the analysis takes from libraries: the decimal digits of \<^verbatim>\<open>\d\<close> and
  \<^verbatim>\<open>str.title\<close> beyond ASCII, \<^verbatim>\<open>langdetect.detect\<close> (\<open>None\<close> when it raises) and the
  reply of the Gemini model. A reply is the JSON object that \<^verbatim>\<open>parse_gemini_json\<close>
  returns, as far as \<^verbatim>\<open>analyze_with_gemini\<close> reads it: each value after \<^verbatim>\<open>str\<close>, the
  score after \<^verbatim>\<open>float\<close>, and \<open>None\<close> for a key that is missing (for the score also when
  \<^verbatim>\<open>float\<close> raises). The reply depends on the number of earlier calls and on the text;
  it is \<open>None\<close> when there is no model, when the call raises and when nothing can be
  parsed.
\<close>

record reply =
  reply_sentiment :: "pystr option"
  reply_score :: "real option"
  reply_language :: "pystr option"
  reply_summary :: "pystr option"

record library =
  unicode_isdecimal :: "nat \<Rightarrow> bool"
  unicode_title :: "pystr \<Rightarrow> pystr"
  langdetect :: "pystr \<Rightarrow> pystr option"
  gemini_reply :: "nat \<Rightarrow> pystr \<Rightarrow> reply option"

text \<open>A library with trivial tables, no language detector and no Gemini model.\<close>

definition plain_library :: library where
  "plain_library =
     \<lparr>unicode_isdecimal = (\<lambda>c. False), unicode_title = (\<lambda>s. s), langdetect = (\<lambda>s. None),
      gemini_reply = (\<lambda>n s. None)\<rparr>"

text \<open>
  A character of the text against a lower-case letter of a pattern compiled with
  \<^verbatim>\<open>re.IGNORECASE\<close>: the letter, its capital, and for \<open>i\<close>, \<open>k\<close> and \<open>s\<close> the four
  letters beyond ASCII that lower-case to them. \<open>match_ci\<close> gives what is left of the
  text after a literal.
\<close>

definition ci_char :: "nat \<Rightarrow> nat \<Rightarrow> bool" where
  "ci_char p c =
     (c = p \<or> c + 32 = p \<or> (p = 105 \<and> (c = 304 \<or> c = 305)) \<or> (p = 107 \<and> c = 8490)
      \<or> (p = 115 \<and> c = 383))"

fun match_ci :: "pystr \<Rightarrow> pystr \<Rightarrow> pystr option" where
  "match_ci [] s = Some s"
| "match_ci (p # ps) [] = None"
| "match_ci (p # ps) (c # cs) = (if ci_char p c then match_ci ps cs else None)"

definition is_digit :: "library \<Rightarrow> nat \<Rightarrow> bool" where
  "is_digit lib c = (if c < 128 then 48 \<le> c \<and> c \<le> 57 else unicode_isdecimal lib c)"

text \<open>
  \<^verbatim>\<open>\(\d+\)\<close> at the head of \<open>s\<close>: the digits can only be the whole run, since the
  bracket that follows is no digit.
\<close>

definition match_count :: "library \<Rightarrow> pystr \<Rightarrow> pystr option" where
  "match_count lib s =
     (case s of
        [] \<Rightarrow> None
      | c # r \<Rightarrow>
          if c = 40 \<and> takeWhile (is_digit lib) r \<noteq> [] then
            (case dropWhile (is_digit lib) r of
               [] \<Rightarrow> None
             | d # r' \<Rightarrow> if d = 41 then Some r' else None)
          else None)"

text \<open>
  \<^verbatim>\<open>^like\s*\(\d+\)\s*dislike\s*\(\d+\)\<close> at the start of the text. What follows each
  \<^verbatim>\<open>\s*\<close> is no whitespace, so it matches the whole run.
\<close>

definition match_like_dislike :: "library \<Rightarrow> pystr \<Rightarrow> bool" where
  "match_like_dislike lib s =
     (case match_ci (u ''like'') s of
        None \<Rightarrow> False
      | Some r1 \<Rightarrow>
          (case match_count lib (dropWhile is_space r1) of
             None \<Rightarrow> False
           | Some r2 \<Rightarrow>
               (case match_ci (u ''dislike'') (dropWhile is_space r2) of
                  None \<Rightarrow> False
                | Some r3 \<Rightarrow> match_count lib (dropWhile is_space r3) \<noteq> None)))"

text \<open>\<^verbatim>\<open>w1\s+w2\<close> at the head of \<open>s\<close>, and a predicate at some position of \<open>s\<close>.\<close>

definition match_two_words :: "pystr \<Rightarrow> pystr \<Rightarrow> pystr \<Rightarrow> bool" where
  "match_two_words w1 w2 s =
     (case match_ci w1 s of
        None \<Rightarrow> False
      | Some r \<Rightarrow> dropWhile is_space r \<noteq> r \<and> match_ci w2 (dropWhile is_space r) \<noteq> None)"

fun search_from :: "(pystr \<Rightarrow> bool) \<Rightarrow> pystr \<Rightarrow> bool" where
  "search_from P [] = P []"
| "search_from P (c # cs) = (P (c # cs) \<or> search_from P cs)"

definition is_junk_or_boilerplate :: "library \<Rightarrow> pystr \<Rightarrow> bool" where
  "is_junk_or_boilerplate lib txt =
     (let cleaned = normalize_whitespace txt in
      cleaned = [] \<or> length cleaned < 3
      \<or> match_like_dislike lib cleaned
      \<or> search_from (match_two_words (u ''facebook'') (u ''twitter'')) cleaned
      \<or> match_two_words (u ''report'') (u ''spam'') cleaned)"

definition PLACEHOLDER_AUTHORS :: "pystr list" where
  "PLACEHOLDER_AUTHORS = map u ['''', ''unknown'', ''default icon for user'', ''home'', ''user'']"

definition is_placeholder_author :: "py_runtime \<Rightarrow> pystr \<Rightarrow> bool" where
  "is_placeholder_author rt a = (lower rt (normalize_whitespace a) \<in> set PLACEHOLDER_AUTHORS)"

section \<open>Analysis of a comment\<close>

text \<open>\<^verbatim>\<open>sub in s\<close> for two strings.\<close>

fun contains :: "pystr \<Rightarrow> pystr \<Rightarrow> bool" where
  "contains sub [] = (sub = [])"
| "contains sub (c # cs) = (prefix sub (c # cs) \<or> contains sub cs)"

definition SENTIMENT_ALIASES :: "(pystr \<times> pystr) list" where
  "SENTIMENT_ALIASES =
     [(u ''pos'', u ''positive''), (u ''neg'', u ''negative''), (u ''neu'', u ''neutral''),
      (u ''label_0'', u ''negative''), (u ''label_1'', u ''neutral''),
      (u ''label_2'', u ''positive'')]"

definition normalize_sentiment :: "py_runtime \<Rightarrow> pystr \<Rightarrow> pystr" where
  "normalize_sentiment rt raw =
     (let label = lower rt (normalize_whitespace raw) in
      if label \<in> set (map u [''positive'', ''negative'', ''neutral'', ''unknown'']) then label
      else (case map_of SENTIMENT_ALIASES label of
              Some name \<Rightarrow> name
            | None \<Rightarrow>
                if contains (u ''pos'') label then u ''positive''
                else if contains (u ''neg'') label then u ''negative''
                else if contains (u ''neu'') label then u ''neutral''
                else u ''unknown''))"

definition LANGUAGE_CODE_MAP :: "(pystr \<times> pystr) list" where
  "LANGUAGE_CODE_MAP =
     [(u ''en'', u ''English''), (u ''hi'', u ''Hindi''), (u ''ta'', u ''Tamil''),
      (u ''te'', u ''Telugu''), (u ''ml'', u ''Malayalam''), (u ''kn'', u ''Kannada''),
      (u ''mr'', u ''Marathi''), (u ''gu'', u ''Gujarati''), (u ''bn'', u ''Bengali''),
      (u ''pa'', u ''Punjabi''), (u ''or'', u ''Odia''), (u ''ur'', u ''Urdu'')]"

text \<open>
  \<^verbatim>\<open>str.title\<close> on ASCII: a letter after a letter is lower-cased, a letter after anything
  else is capitalized. The flag says that the character before is a letter.
\<close>

fun title_ascii :: "bool \<Rightarrow> pystr \<Rightarrow> pystr" where
  "title_ascii after_letter [] = []"
| "title_ascii after_letter (c # cs) =
     (if 97 \<le> c \<and> c \<le> 122 then (if after_letter then c else c - 32) # title_ascii True cs
      else if 65 \<le> c \<and> c \<le> 90 then (if after_letter then c + 32 else c) # title_ascii True cs
      else c # title_ascii False cs)"

definition title :: "library \<Rightarrow> pystr \<Rightarrow> pystr" where
  "title lib s = (if list_all (\<lambda>c. c < 128) s then title_ascii False s else unicode_title lib s)"

definition normalize_language_name :: "py_runtime \<Rightarrow> library \<Rightarrow> pystr \<Rightarrow> pystr" where
  "normalize_language_name rt lib raw =
     (let v = normalize_whitespace raw in
      if v = [] then u ''Unknown''
      else (case map_of LANGUAGE_CODE_MAP (lower rt v) of
              Some name \<Rightarrow> name
            | None \<Rightarrow>
                (let titled = title lib v in
                 if titled \<in> set (map snd LANGUAGE_CODE_MAP) then titled else v)))"

definition detect_language_name :: "py_runtime \<Rightarrow> library \<Rightarrow> pystr \<Rightarrow> pystr" where
  "detect_language_name rt lib txt =
     (let cleaned = normalize_whitespace txt in
      if cleaned = [] then u ''Unknown''
      else (let script_guess = detect_language_from_script cleaned in
            case langdetect lib cleaned of
              None \<Rightarrow> normalize_language_name rt lib script_guess
            | Some code \<Rightarrow>
                (case map_of LANGUAGE_CODE_MAP (lower rt code) of
                   Some mapped \<Rightarrow> mapped
                 | None \<Rightarrow> normalize_language_name rt lib script_guess)))"

text \<open>
  The dictionary that \<^verbatim>\<open>analyze_comment\<close> and \<^verbatim>\<open>analyze_with_gemini\<close> return, and the
  state that the analysis changes: the dictionary \<^verbatim>\<open>_analysis_cache\<close> and the number of
  calls to the Gemini model so far.
\<close>

record analysis =
  an_sentiment :: pystr
  an_score :: real
  an_lang :: pystr
  an_summary :: pystr

record analysis_state =
  cache :: "pystr \<rightharpoonup> analysis"
  gemini_calls :: nat

definition analyze_with_gemini ::
  "py_runtime \<Rightarrow> library \<Rightarrow> pystr \<Rightarrow> analysis_state \<Rightarrow> analysis option \<times> analysis_state" where
  "analyze_with_gemini rt lib text_input st =
     (let st1 = st\<lparr>gemini_calls := gemini_calls st + 1\<rparr> in
      case gemini_reply lib (gemini_calls st) text_input of
        None \<Rightarrow> (None, st1)
      | Some parsed \<Rightarrow>
          (let label = normalize_sentiment rt (get_or (reply_sentiment parsed) []) in
           if label = u ''unknown'' then (None, st1)
           else
             (let score = (case reply_score parsed of
                             None \<Rightarrow> DEFAULT_SENTIMENT_SCORE label
                           | Some x \<Rightarrow> x);
                  language = normalize_language_name rt lib
                               (get_or (reply_language parsed) (u ''Unknown''));
                  short = short_summary (get_or (reply_summary parsed) text_input) default_max_chars
              in (Some \<lparr>an_sentiment = label, an_score = max 0.0 (min 1.0 score),
                        an_lang = language, an_summary = short\<rparr>, st1))))"

definition analyze_comment ::
  "py_runtime \<Rightarrow> library \<Rightarrow> pystr \<Rightarrow> analysis_state \<Rightarrow> analysis \<times> analysis_state" where
  "analyze_comment rt lib txt st =
     (let cleaned = fix_mojibake txt in
      if cleaned = [] then
        (\<lparr>an_sentiment = u ''unknown'', an_score = DEFAULT_SENTIMENT_SCORE (u ''unknown''),
          an_lang = u ''Unknown'', an_summary = []\<rparr>, st)
      else
        (let cache_key = text_hash rt cleaned in
         case cache st cache_key of
           Some cached \<Rightarrow> (cached, st)
         | None \<Rightarrow>
             (let local = heuristic_sentiment rt cleaned;
                  result = \<lparr>an_sentiment = sr_sentiment local, an_score = sr_score local,
                            an_lang = detect_language_name rt lib cleaned,
                            an_summary = short_summary cleaned default_max_chars\<rparr>
              in case analyze_with_gemini rt lib cleaned st of
                   (gemini, st1) \<Rightarrow>
                     (let result1 = (case gemini of None \<Rightarrow> result | Some g \<Rightarrow> g)
                      in (result1, st1\<lparr>cache := (cache st1)(cache_key \<mapsto> result1)\<rparr>)))))"

text \<open>The loop of \<^verbatim>\<open>normalize_rows\<close>; the rows it keeps stand in the order of the input.\<close>

fun normalize_rows ::
  "py_runtime \<Rightarrow> library \<Rightarrow> raw_row list \<Rightarrow> analysis_state \<Rightarrow> comment list \<times> analysis_state" where
  "normalize_rows rt lib [] st = ([], st)"
| "normalize_rows rt lib (row # rows) st =
     (let txt = fix_mojibake (get_or (raw_text row) []) in
      if is_junk_or_boilerplate lib txt then normalize_rows rt lib rows st
      else
        (let author0 = fix_mojibake (get_or (raw_author row) (u ''Unknown''));
             author1 = (if author0 = [] then u ''Unknown'' else author0);
             author2 = (if is_placeholder_author rt author1 then u ''Unknown'' else author1);
             stamp = fix_mojibake (get_or (raw_timestamp row) [])
         in case analyze_comment rt lib txt st of
              (result, st1) \<Rightarrow>
                (let language = normalize_language_name rt lib (an_lang result);
                     normalized_row =
                       \<lparr>author = author2, timestamp = stamp, text_str = txt,
                        lang = (if language = [] then u ''Unknown'' else language),
                        sentiment = normalize_sentiment rt (an_sentiment result),
                        sentiment_score = an_score result,
                        summary = short_summary (an_summary result) default_max_chars\<rparr>
                 in case normalize_rows rt lib rows st1 of
                      (rest, st2) \<Rightarrow> (normalized_row # rest, st2))))"

section \<open>Persisted rows\<close>

text \<open>
  \<^verbatim>\<open>SITE_CONFIG\<close> and the four paths of a source. Only the ids of \<^verbatim>\<open>SITE_CONFIG\<close> are ever
  passed to them.
\<close>

record site_config =
  config_name :: pystr
  config_url :: pystr
  config_csv :: pystr
  config_raw_csv :: pystr

definition SITE_CONFIG :: "(pystr \<times> site_config) list" where
  "SITE_CONFIG =
     [(u ''site1'',
       \<lparr>config_name = u ''Mann Ki Baat (English)'',
        config_url = u ''https://www.mygov.in/group-issue/inviting-ideas-mann-ki-baat-prime-minister-narendra-modi-28th-september-2025/'',
        config_csv = u ''comments_processed_site1.csv'',
        config_raw_csv = u ''comments_raw_site1.csv''\<rparr>),
      (u ''site2'',
       \<lparr>config_name = u ''Akshar Hindi (Hindi)'',
        config_url = u ''https://www.mygov.in/group-issue/inviting-comments-draft-indian-language-standard-akshar-hindi-language/'',
        config_csv = u ''comments_processed_site2.csv'',
        config_raw_csv = u ''comments_raw_site2.csv''\<rparr>)]"

datatype directory = OUTPUT_DIR | DASHBOARD_OUTPUT_DIR

type_synonym path = "directory \<times> pystr"

definition csv_path :: "pystr \<Rightarrow> path" where
  "csv_path source_id = (OUTPUT_DIR, config_csv (the (map_of SITE_CONFIG source_id)))"

definition raw_csv_path :: "pystr \<Rightarrow> path" where
  "raw_csv_path source_id = (OUTPUT_DIR, config_raw_csv (the (map_of SITE_CONFIG source_id)))"

definition dashboard_csv_path :: "pystr \<Rightarrow> path" where
  "dashboard_csv_path source_id =
     (DASHBOARD_OUTPUT_DIR, config_csv (the (map_of SITE_CONFIG source_id)))"

definition dashboard_raw_csv_path :: "pystr \<Rightarrow> path" where
  "dashboard_raw_csv_path source_id =
     (DASHBOARD_OUTPUT_DIR, config_raw_csv (the (map_of SITE_CONFIG source_id)))"

text \<open>
  A file is the table that \<^verbatim>\<open>csv.writer\<close> is given and that \<^verbatim>\<open>csv.reader\<close> gives back:
  rows of cells, the first row being the header. The files are a map from paths;
  \<open>None\<close> is a file that does not exist or that cannot be read, for which
  \<^verbatim>\<open>load_rows_from_csv\<close> returns the empty list.
\<close>

type_synonym table = "pystr list list"

type_synonym storage = "path \<rightharpoonup> table"

definition CSV_FIELDS :: "pystr list" where
  "CSV_FIELDS = map u [''author'', ''timestamp'', ''text'', ''lang'', ''sentiment'',
     ''sentiment_score'', ''summary'']"

text \<open>
  The dictionary that \<^verbatim>\<open>csv.DictReader\<close> makes of a row, as the assignments in their
  order: a cell for each column that the row reaches, \<^verbatim>\<open>None\<close> for a column beyond the
  end of the row. The last assignment to a key is its value, and \<open>reader_get\<close> is
  \<^verbatim>\<open>row.get(key, default)\<close>.
\<close>

fun dict_row :: "pystr list \<Rightarrow> pystr list \<Rightarrow> (pystr \<times> pystr option) list" where
  "dict_row [] cells = []"
| "dict_row (h # hs) [] = (h, None) # dict_row hs []"
| "dict_row (h # hs) (c # cs) = (h, Some c) # dict_row hs cs"

definition reader_get :: "pystr list \<Rightarrow> pystr list \<Rightarrow> pystr \<Rightarrow> pystr option \<Rightarrow> pystr option" where
  "reader_get header cells key fallback =
     (case map_of (rev (dict_row header cells)) key of None \<Rightarrow> fallback | Some v \<Rightarrow> v)"

text \<open>
  The row that \<^verbatim>\<open>load_rows_from_csv\<close> builds; the default of the score, the float
  \<^verbatim>\<open>0.0\<close>, is written as a string.
\<close>

definition load_row :: "pystr list \<Rightarrow> pystr list \<Rightarrow> raw_row" where
  "load_row header cells =
     \<lparr>raw_author = reader_get header cells (u ''author'') (Some (u ''Unknown'')),
      raw_timestamp = reader_get header cells (u ''timestamp'') (Some []),
      raw_text = reader_get header cells (u ''text'') (Some []),
      raw_lang = reader_get header cells (u ''lang'') (Some (u ''Unknown'')),
      raw_sentiment = reader_get header cells (u ''sentiment'') (Some (u ''unknown'')),
      raw_sentiment_score = reader_get header cells (u ''sentiment_score'') (Some (u ''0.0'')),
      raw_summary = reader_get header cells (u ''summary'')
                      (reader_get header cells (u ''text'') (Some []))\<rparr>"

text \<open>\<^verbatim>\<open>csv.DictReader\<close> takes the first row as the header and skips the empty rows.\<close>

definition load_rows_from_csv :: "storage \<Rightarrow> path \<Rightarrow> raw_row list" where
  "load_rows_from_csv files p =
     (case files p of
        None \<Rightarrow> []
      | Some [] \<Rightarrow> []
      | Some (header # rows) \<Rightarrow> map (load_row header) (filter (\<lambda>cells. cells \<noteq> []) rows))"

text \<open>
  \<^verbatim>\<open>f"{x:.4f}"\<close>: the sign, the integer part, and four decimals after rounding to the
  nearest multiple of \<open>1/10000\<close>.
\<close>

definition format_4f :: "real \<Rightarrow> pystr" where
  "format_4f x =
     (let n = nat (round_half_even (\<bar>x\<bar> * 10000)); m = n mod 10000 in
      (if x < 0 then u ''-'' else []) @ str_nat (n div 10000) @ u ''.''
      @ [48 + m div 1000, 48 + m div 100 mod 10, 48 + m div 10 mod 10, 48 + m mod 10])"

definition save_row :: "py_runtime \<Rightarrow> comment \<Rightarrow> pystr list" where
  "save_row rt row =
     [author row, timestamp row, text_str row, lang row, normalize_sentiment rt (sentiment row),
      format_4f (sentiment_score row), summary row]"

definition save_rows_to_csv :: "py_runtime \<Rightarrow> comment list \<Rightarrow> path \<Rightarrow> storage \<Rightarrow> storage" where
  "save_rows_to_csv rt rows p files = files(p \<mapsto> CSV_FIELDS # map (save_row rt) rows)"

section \<open>Scrape, analysis and seeding\<close>

text \<open>
  \<^verbatim>\<open>scrape_and_analyze_source\<close> on the site behind the URL of the source: the rows it
  returns or the exception it raises, with the files and the state of the analysis that it
  leaves. The rows of \<^verbatim>\<open>raw_like_rows\<close> are copies of the merged rows.
\<close>

definition scrape_and_analyze_source ::
  "py_runtime \<Rightarrow> library \<Rightarrow> site \<Rightarrow> int \<Rightarrow> pystr \<Rightarrow> storage \<Rightarrow> analysis_state
     \<Rightarrow> (exn + comment list) \<times> storage \<times> analysis_state" where
  "scrape_and_analyze_source rt lib w max_pages source_id files st =
     (case scrape_comments_paginated rt w max_pages of
        Inl e \<Rightarrow> (Inl e, files, st)
      | Inr scraped_rows \<Rightarrow>
          if scraped_rows = [] then
            (Inl (Exn (u ''No comments extracted from source.'')), files, st)
          else
            (case normalize_rows rt lib scraped_rows st of
               (analyzed_rows, st1) \<Rightarrow>
                 if analyzed_rows = [] then
                   (Inl (Exn (u ''No valid comments after analysis.'')), files, st1)
                 else
                   (case normalize_rows rt lib (load_rows_from_csv files (csv_path source_id)) st1 of
                      (existing_rows, st2) \<Rightarrow>
                        (let merged_rows = merge_with_existing rt analyzed_rows existing_rows;
                             files1 = save_rows_to_csv rt merged_rows (csv_path source_id) files;
                             files2 = save_rows_to_csv rt merged_rows
                                        (dashboard_csv_path source_id) files1;
                             raw_like_rows = merged_rows;
                             files3 = save_rows_to_csv rt raw_like_rows
                                        (raw_csv_path source_id) files2;
                             files4 = save_rows_to_csv rt raw_like_rows
                                        (dashboard_raw_csv_path source_id) files3
                         in (Inr merged_rows, files4, st2)))))"

text \<open>
  The body of the loop of \<^verbatim>\<open>ensure_seed_data\<close> up to the lock: the first of the four files
  of the source that gives a row.
\<close>

definition seed_rows ::
  "py_runtime \<Rightarrow> library \<Rightarrow> storage \<Rightarrow> pystr \<Rightarrow> analysis_state \<Rightarrow> comment list \<times> analysis_state" where
  "seed_rows rt lib files source_id st =
     (case normalize_rows rt lib (load_rows_from_csv files (csv_path source_id)) st of
        (processed1, st1) \<Rightarrow>
          if processed1 \<noteq> [] then (processed1, st1)
          else
            (case normalize_rows rt lib
                    (load_rows_from_csv files (dashboard_csv_path source_id)) st1 of
               (processed2, st2) \<Rightarrow>
                 if processed2 \<noteq> [] then (processed2, st2)
                 else
                   (case normalize_rows rt lib
                           (load_rows_from_csv files (raw_csv_path source_id)) st2 of
                      (processed3, st3) \<Rightarrow>
                        if processed3 \<noteq> [] then (processed3, st3)
                        else normalize_rows rt lib
                               (load_rows_from_csv files (dashboard_raw_csv_path source_id)) st3)))"

text \<open>
  \<^verbatim>\<open>ensure_seed_data\<close> over the ids that are left, on the dictionary of the states;
  \<open>clock\<close> is the time at which a source is written.
\<close>

fun ensure_seed_data ::
  "py_runtime \<Rightarrow> library \<Rightarrow> storage \<Rightarrow> (pystr \<Rightarrow> real) \<Rightarrow> pystr list
     \<Rightarrow> (pystr \<Rightarrow> site_state) \<times> analysis_state \<Rightarrow> (pystr \<Rightarrow> site_state) \<times> analysis_state" where
  "ensure_seed_data rt lib files clock [] (sts, st) = (sts, st)"
| "ensure_seed_data rt lib files clock (source_id # rest) (sts, st) =
     (case seed_rows rt lib files source_id st of
        (processed, st1) \<Rightarrow>
          ensure_seed_data rt lib files clock rest
            (sts(source_id := (sts source_id)
                   \<lparr>comments := processed,
                    last_updated := (if processed \<noteq> [] then Some (clock source_id) else None)\<rparr>),
             st1))"

section \<open>Functions used in the statements and proofs\<close>

text \<open>
  The merge loop without its accumulator: the rows whose key is neither in \<open>seen\<close> nor
  the key of an earlier row.
\<close>

fun keep_unseen :: "('a \<Rightarrow> 'k) \<Rightarrow> 'k set \<Rightarrow> 'a list \<Rightarrow> 'a list" where
  "keep_unseen k seen [] = []"
| "keep_unseen k seen (x # xs) =
     (if k x \<in> seen then keep_unseen k seen xs else x # keep_unseen k (insert (k x) seen) xs)"

definition unseen_at :: "('a \<Rightarrow> 'k) \<Rightarrow> 'k set \<Rightarrow> 'a list \<Rightarrow> nat \<Rightarrow> bool" where
  "unseen_at k seen xs i = (k (xs ! i) \<notin> seen \<union> k ` set (take i xs))"


text \<open>Rows for evaluating the functions on concrete input.\<close>

definition example_row :: "string \<Rightarrow> string \<Rightarrow> string \<Rightarrow> comment" where
  "example_row a t s =
     \<lparr>author = u a, timestamp = [], text_str = u t, lang = u ''English'', sentiment = u s,
      sentiment_score = 0.5, summary = u t\<rparr>"

definition example_new :: "comment list" where
  "example_new = [example_row ''Bob'' ''Hi there'' ''neutral'', example_row ''Eve'' ''Good'' ''positive'']"

definition example_existing :: "comment list" where
  "example_existing =
     [example_row '' bob '' ''hi  there'' ''unknown'', example_row ''Dan'' ''Bad'' ''negative'']"

definition example_merged :: "comment list" where
  "example_merged =
     [example_row ''Bob'' ''Hi there'' ''neutral'', example_row ''Eve'' ''Good'' ''positive'',
      example_row ''Dan'' ''Bad'' ''negative'']"


text \<open>
  Three texts for the summary: 300 characters with one space, 300 characters without a
  space, and 100 characters.
\<close>

definition example_long :: pystr where
  "example_long = replicate 150 120 @ [32] @ replicate 149 121"

definition example_unbroken :: pystr where
  "example_unbroken = replicate 300 120"

definition example_short :: pystr where
  "example_short = replicate 100 120"


text \<open>
  Two sites for the pagination. On \<open>example_site\<close> pages 0, 1 and 2 bring new rows (page 1
  under its second token only), pages 3 and 4 bring nothing, and every later page would
  bring a new row. On \<open>repeating_site\<close> page 1 repeats the row of page 0 with another
  timestamp and page 2 has a new row.
\<close>

definition example_raw :: "string \<Rightarrow> string \<Rightarrow> string \<Rightarrow> raw_row" where
  "example_raw a ts t =
     \<lparr>raw_author = Some (u a), raw_timestamp = Some (u ts), raw_text = Some (u t),
      raw_lang = None, raw_sentiment = None, raw_sentiment_score = None, raw_summary = None\<rparr>"

definition example_site :: site where
  "example_site =
     \<lparr>root_failure = None,
      fetch_page = (\<lambda>token.
        if token = u ''0'' then Inr [example_raw ''Asha'' ''1 day ago'' ''Good idea'']
        else if token = u ''0,1'' then Inr []
        else if token = u ''1'' then Inr [example_raw ''Ravi'' ''2 days ago'' ''Very slow site'']
        else if token = u ''0,2'' then
          Inr [example_raw ''asha'' ''3 days ago'' ''good  idea'',
               example_raw ''Mina'' ''3 days ago'' ''Thanks'']
        else if token \<in> {u ''0,3'', u ''3'', u ''0,4'', u ''4''} then Inr []
        else Inr [example_raw ''Late'' '''' ''Never requested''])\<rparr>"

definition repeating_site :: site where
  "repeating_site =
     \<lparr>root_failure = None,
      fetch_page = (\<lambda>token.
        if token = u ''0'' then Inr [example_raw ''Asha'' ''1 day ago'' ''Good idea'']
        else if token = u ''0,1'' then Inr [example_raw ''Asha'' ''2 days ago'' ''Good idea'']
        else if token = u ''0,2'' then Inr [example_raw ''Mina'' ''3 days ago'' ''Thanks'']
        else Inr [])\<rparr>"

text \<open>
  What holds of every system that the server can reach: each source has at most one thread
  inside a refresh, and its \<^verbatim>\<open>in_progress\<close> flag says whether it has one.
\<close>

definition refresh_invariant :: "system \<Rightarrow> bool" where
  "refresh_invariant sys =
     (\<forall>source_id. length (refreshing sys source_id) \<le> 1
        \<and> (in_progress (states sys source_id) \<longleftrightarrow> refreshing sys source_id \<noteq> []))"

text \<open>
  A state with one comment and no refresh in progress, the system that has this state for
  every source and no thread, and the system after two forced triggers for \<open>site1\<close> and the
  first step of the first thread.
\<close>

definition example_state :: site_state where
  "example_state = \<lparr>source_name = u ''Mann Ki Baat (English)'', comments = example_new,
     last_updated = Some 100, in_progress = False, last_error = None\<rparr>"

definition initial_system :: system where
  "initial_system = \<lparr>states = (\<lambda>source_id. example_state), threads = []\<rparr>"

definition site1_thread :: "position \<Rightarrow> thread" where
  "site1_thread p = \<lparr>thread_source = u ''site1'', thread_position = p\<rparr>"

definition busy_system :: system where
  "busy_system =
     \<lparr>states = (\<lambda>source_id. example_state)
                  (u ''site1'' := example_state\<lparr>in_progress := True, last_error := None\<rparr>),
      threads = [site1_thread Scraping, site1_thread Spawned]\<rparr>"

text \<open>The three fields of a row that \<^verbatim>\<open>normalize_rows\<close> reads.\<close>

definition key_fields :: "raw_row \<Rightarrow> pystr option \<times> pystr option \<times> pystr option" where
  "key_fields row = (raw_author row, raw_timestamp row, raw_text row)"

text \<open>The four fields of a comment that the analysis fills.\<close>

definition analysis_fields :: "comment \<Rightarrow> pystr \<times> pystr \<times> real \<times> pystr" where
  "analysis_fields row = (lang row, sentiment row, sentiment_score row, summary row)"

text \<open>
  Two files with the same comment: one holds an analysis that the text does not have, the
  other has no column of the analysis at all. The state of the analysis at the start of
  the server, and the dictionary of the states as the module creates it.
\<close>

definition stored_table :: table where
  "stored_table =
     [CSV_FIELDS,
      [u ''Asha'', u ''2 days ago'', u ''This is great, thank you!'', u ''Hindi'',
       u ''negative'', u ''0.1000'', u ''old summary'']]"

definition plain_table :: table where
  "plain_table =
     [[u ''author'', u ''timestamp'', u ''text''],
      [u ''Asha'', u ''2 days ago'', u ''This is great, thank you!'']]"

definition stored_files :: storage where
  "stored_files = [csv_path (u ''site1'') \<mapsto> stored_table]"

definition plain_files :: storage where
  "plain_files = [csv_path (u ''site1'') \<mapsto> plain_table]"

definition empty_analysis :: analysis_state where
  "empty_analysis = \<lparr>cache = Map.empty, gemini_calls = 0\<rparr>"

definition initial_site_states :: "pystr \<Rightarrow> site_state" where
  "initial_site_states source_id =
     \<lparr>source_name = config_name (the (map_of SITE_CONFIG source_id)), comments = [],
      last_updated = None, in_progress = False, last_error = None\<rparr>"

definition great_comment :: comment where
  "great_comment =
     \<lparr>author = u ''Asha'', timestamp = u ''2 days ago'', text_str = u ''This is great, thank you!'',
      lang = u ''English'', sentiment = u ''positive'', sentiment_score = 0.71,
      summary = u ''This is great, thank you!''\<rparr>"

text \<open>
  The text of a row that the analysis works on: \<^verbatim>\<open>normalize_rows\<close> repairs the text of
  the row and \<^verbatim>\<open>analyze_comment\<close> repairs the result once more.
\<close>

definition analysed_text :: "raw_row \<Rightarrow> pystr" where
  "analysed_text row = fix_mojibake (fix_mojibake (get_or (raw_text row) []))"

text \<open>The four labels of a sentiment.\<close>

definition SENTIMENT_LABELS :: "pystr list" where
  "SENTIMENT_LABELS = map u [''positive'', ''negative'', ''neutral'', ''unknown'']"

text \<open>
  The number that a string of decimal digits with a point denotes: the digits before the
  point, and the digits after it over the power of ten of their count.
\<close>

definition digits_value :: "pystr \<Rightarrow> nat" where
  "digits_value s = foldl (\<lambda>a c. 10 * a + (c - 48)) 0 s"

definition decimal_value :: "pystr \<Rightarrow> real" where
  "decimal_value s =
     (let whole = takeWhile (\<lambda>c. c \<noteq> 46) s;
          decimals = drop 1 (dropWhile (\<lambda>c. c \<noteq> 46) s)
      in real (digits_value whole) + real (digits_value decimals) / 10 ^ length decimals)"

section \<open>Properties of the comment identity\<close>

lemmas str_eval = u_def normalize_whitespace_def strip_def is_space_def lower_def ascii_lower_def

lemma split_at_bar:
  "a1 @ c # t1 = a2 @ c # t2 \<Longrightarrow> c \<notin> set a1 \<Longrightarrow> c \<notin> set a2 \<Longrightarrow> a1 = a2 \<and> t1 = t2"
proof (induction a1 arbitrary: a2)
  case Nil
  then show ?case by (cases a2) auto
next
  case (Cons x xs)
  then show ?case by (cases a2) auto
qed

text \<open>
  Claim C1, as the code has it. The identity of a record is the hash of the string
  \<open>lower (normalize_whitespace author) | lower (normalize_whitespace text)\<close>. Records with
  the same case-insensitive, whitespace-normalized pair have the same identity, so
  \<open>identity(" Bob ", "Hi there") = identity("bob", "hi   there")\<close>. Records whose normalized
  pairs differ have distinct identities when neither normalized author contains the bar
  and the hash does not collide on the two key strings.
\<close>

theorem comment_identity:
  "(normalized_pair rt a1 t1 = normalized_pair rt a2 t2
      \<longrightarrow> make_comment_key rt a1 t1 = make_comment_key rt a2 t2)
   \<and> make_comment_key rt (u '' Bob '') (u ''Hi there'')
       = make_comment_key rt (u ''bob'') (u ''hi   there'')
   \<and> (normalized_pair rt a1 t1 \<noteq> normalized_pair rt a2 t2
      \<and> 124 \<notin> set (fst (normalized_pair rt a1 t1))
      \<and> 124 \<notin> set (fst (normalized_pair rt a2 t2))
      \<and> (text_hash rt (key_string rt a1 t1) = text_hash rt (key_string rt a2 t2)
           \<longrightarrow> key_string rt a1 t1 = key_string rt a2 t2)
      \<longrightarrow> make_comment_key rt a1 t1 \<noteq> make_comment_key rt a2 t2)"
proof (intro conjI impI)
  assume "normalized_pair rt a1 t1 = normalized_pair rt a2 t2"
  then show "make_comment_key rt a1 t1 = make_comment_key rt a2 t2"
    by (simp add: normalized_pair_def make_comment_key_def key_string_def)
next
  show "make_comment_key rt (u '' Bob '') (u ''Hi there'')
       = make_comment_key rt (u ''bob'') (u ''hi   there'')"
    by (simp add: make_comment_key_def key_string_def str_eval)
next
  assume h: "normalized_pair rt a1 t1 \<noteq> normalized_pair rt a2 t2
      \<and> 124 \<notin> set (fst (normalized_pair rt a1 t1))
      \<and> 124 \<notin> set (fst (normalized_pair rt a2 t2))
      \<and> (text_hash rt (key_string rt a1 t1) = text_hash rt (key_string rt a2 t2)
           \<longrightarrow> key_string rt a1 t1 = key_string rt a2 t2)"
  show "make_comment_key rt a1 t1 \<noteq> make_comment_key rt a2 t2"
  proof
    assume "make_comment_key rt a1 t1 = make_comment_key rt a2 t2"
    with h have "key_string rt a1 t1 = key_string rt a2 t2"
      by (simp add: make_comment_key_def)
    then have "normalized_pair rt a1 t1 = normalized_pair rt a2 t2"
      using h split_at_bar[of "lower rt (normalize_whitespace a1)" 124 "lower rt (normalize_whitespace t1)"
                              "lower rt (normalize_whitespace a2)" "lower rt (normalize_whitespace t2)"]
      by (simp add: key_string_def normalized_pair_def)
    with h show False by simp
  qed
qed

theorem comment_identity_witness:
  "normalized_pair plain_runtime (u '' Bob '') (u ''Hi there'')
     = normalized_pair plain_runtime (u ''bob'') (u ''hi   there'')
   \<and> make_comment_key plain_runtime (u '' Bob '') (u ''Hi there'')
     = make_comment_key plain_runtime (u ''bob'') (u ''hi   there'')
   \<and> normalized_pair plain_runtime (u ''Bob'') (u ''Hi'') \<noteq> normalized_pair plain_runtime (u ''Bob'') (u ''Ho'')
   \<and> 124 \<notin> set (fst (normalized_pair plain_runtime (u ''Bob'') (u ''Hi'')))
   \<and> 124 \<notin> set (fst (normalized_pair plain_runtime (u ''Bob'') (u ''Ho'')))
   \<and> text_hash plain_runtime (key_string plain_runtime (u ''Bob'') (u ''Hi''))
        \<noteq> text_hash plain_runtime (key_string plain_runtime (u ''Bob'') (u ''Ho''))
   \<and> make_comment_key plain_runtime (u ''Bob'') (u ''Hi'') \<noteq> make_comment_key plain_runtime (u ''Bob'') (u ''Ho'')"
proof -
  have p1: "normalized_pair plain_runtime (u '' Bob '') (u ''Hi there'')
     = normalized_pair plain_runtime (u ''bob'') (u ''hi   there'')"
    by (simp add: normalized_pair_def str_eval)
  have p2: "normalized_pair plain_runtime (u ''Bob'') (u ''Hi'') \<noteq> normalized_pair plain_runtime (u ''Bob'') (u ''Ho'')"
    by (simp add: normalized_pair_def str_eval)
  have p3: "124 \<notin> set (fst (normalized_pair plain_runtime (u ''Bob'') (u ''Hi'')))"
    by (simp add: normalized_pair_def str_eval)
  have p4: "124 \<notin> set (fst (normalized_pair plain_runtime (u ''Bob'') (u ''Ho'')))"
    by (simp add: normalized_pair_def str_eval)
  have p5: "text_hash plain_runtime (key_string plain_runtime (u ''Bob'') (u ''Hi''))
        \<noteq> text_hash plain_runtime (key_string plain_runtime (u ''Bob'') (u ''Ho''))"
    by (simp add: text_hash_def plain_runtime_def encode_utf8_ignore_def utf8_char_def key_string_def str_eval)
  from p1 p2 p3 p4 p5
    comment_identity[of plain_runtime "u '' Bob ''" "u ''Hi there''" "u ''bob''" "u ''hi   there''"]
    comment_identity[of plain_runtime "u ''Bob''" "u ''Hi''" "u ''Bob''" "u ''Ho''"]
  show ?thesis by blast
qed

text \<open>
  The bar is not escaped: the pairs \<open>("a|b", "c")\<close> and \<open>("a", "b|c")\<close> differ and
  are formatted to the same key string, whatever the hash.
\<close>

theorem comment_identity_counterexample:
  "normalized_pair plain_runtime (u ''a|b'') (u ''c'') \<noteq> normalized_pair plain_runtime (u ''a'') (u ''b|c'')
   \<and> key_string plain_runtime (u ''a|b'') (u ''c'') = key_string plain_runtime (u ''a'') (u ''b|c'')
   \<and> make_comment_key plain_runtime (u ''a|b'') (u ''c'') = make_comment_key plain_runtime (u ''a'') (u ''b|c'')"
  by (simp add: normalized_pair_def make_comment_key_def key_string_def str_eval)


section \<open>Properties of the merge\<close>

lemma merge_loop_keep_unseen:
  "merge_loop rt merged seen rows = merged @ keep_unseen (row_key rt) seen rows"
  by (induction rows arbitrary: merged seen) (simp_all add: Let_def)

lemma keep_unseen_subseq: "subseq (keep_unseen k seen xs) xs"
  by (induction xs arbitrary: seen) auto

lemma keep_unseen_keys: "k ` set (keep_unseen k seen xs) = k ` set xs - seen"
  by (induction xs arbitrary: seen) auto

lemma keep_unseen_distinct: "distinct (map k (keep_unseen k seen xs))"
proof (induction xs arbitrary: seen)
  case Nil
  show ?case by simp
next
  case (Cons x xs)
  have "k x \<notin> k ` set (keep_unseen k (insert (k x) seen) xs)"
    by (simp add: keep_unseen_keys)
  with Cons show ?case by simp
qed

lemma keep_unseen_append:
  "keep_unseen k seen (xs @ ys) = keep_unseen k seen xs @ keep_unseen k (seen \<union> k ` set xs) ys"
proof (induction xs arbitrary: seen)
  case Nil
  show ?case by simp
next
  case (Cons x xs)
  have "k x \<in> seen \<Longrightarrow> seen \<union> insert (k x) (k ` set xs) = seen \<union> k ` set xs" by auto
  moreover have "insert (k x) seen \<union> k ` set xs = seen \<union> insert (k x) (k ` set xs)" by auto
  ultimately show ?case using Cons by simp
qed

lemma keep_unseen_all:
  "distinct (map k xs) \<Longrightarrow> k ` set xs \<inter> seen = {} \<Longrightarrow> keep_unseen k seen xs = xs"
  by (induction xs arbitrary: seen) auto

lemma keep_unseen_none: "k ` set xs \<subseteq> seen \<Longrightarrow> keep_unseen k seen xs = []"
  by (induction xs arbitrary: seen) auto

lemma unseen_at_0: "unseen_at k seen (x # xs) 0 = (k x \<notin> seen)"
  by (simp add: unseen_at_def)

lemma unseen_at_Suc: "unseen_at k seen (x # xs) (Suc i) = unseen_at k (insert (k x) seen) xs i"
  by (simp add: unseen_at_def)

lemma unseen_at_absorb: "k x \<in> seen \<Longrightarrow> unseen_at k (insert (k x) seen) xs i = unseen_at k seen xs i"
  by (simp add: unseen_at_def insert_absorb)

lemma keep_unseen_unseen_at:
  "keep_unseen k seen xs = map ((!) xs) (filter (unseen_at k seen xs) [0..<length xs])"
proof (induction xs arbitrary: seen)
  case Nil
  show ?case by simp
next
  case (Cons x xs)
  have upt: "[0..<length (x # xs)] = 0 # map Suc [0..<length xs]"
    by (simp add: upt_conv_Cons map_Suc_upt del: upt_Suc)
  have tl: "map ((!) (x # xs)) (filter (unseen_at k seen (x # xs)) (map Suc [0..<length xs]))
        = map ((!) xs) (filter (unseen_at k (insert (k x) seen) xs) [0..<length xs])"
    by (simp add: filter_map comp_def unseen_at_Suc)
  show ?case
  proof (cases "k x \<in> seen")
    case True
    then have "unseen_at k (insert (k x) seen) xs = unseen_at k seen xs"
      by (auto simp: unseen_at_absorb)
    with True Cons[of seen] show ?thesis
      unfolding upt by (simp add: tl unseen_at_0 del: upt_Suc)
  next
    case False
    with Cons[of "insert (k x) seen"] show ?thesis
      unfolding upt by (simp add: tl unseen_at_0 del: upt_Suc)
  qed
qed

lemma unseen_at_empty:
  assumes "i < length xs"
  shows "unseen_at k {} xs i = (\<forall>j<i. k (xs ! j) \<noteq> k (xs ! i))"
proof -
  have len: "length (take i xs) = i"
    using assms by simp
  have "(k (xs ! i) \<in> k ` set (take i xs)) = (\<exists>j<i. k (xs ! j) = k (xs ! i))"
  proof
    assume "k (xs ! i) \<in> k ` set (take i xs)"
    then obtain y where y: "y \<in> set (take i xs)" "k y = k (xs ! i)" by auto
    then obtain j where "j < length (take i xs)" "take i xs ! j = y"
      by (auto simp: in_set_conv_nth)
    then have "j < i" "xs ! j = y" using len by simp_all
    with y show "\<exists>j<i. k (xs ! j) = k (xs ! i)" by auto
  next
    assume "\<exists>j<i. k (xs ! j) = k (xs ! i)"
    then obtain j where j: "j < i" "k (xs ! j) = k (xs ! i)" by auto
    then have "take i xs ! j \<in> set (take i xs)"
      using len by (intro nth_mem) simp
    with j have "xs ! j \<in> set (take i xs)" by simp
    with j show "k (xs ! i) \<in> k ` set (take i xs)" by (metis imageI)
  qed
  then show ?thesis
    unfolding unseen_at_def by auto
qed

lemma merge_fixed: "merge_with_existing rt (merge_with_existing rt A B) B = merge_with_existing rt A B"
proof -
  let ?k = "row_key rt"
  let ?M = "keep_unseen ?k {} (A @ B)"
  have M: "merge_with_existing rt A B = ?M"
    by (simp add: merge_with_existing_def merge_loop_keep_unseen)
  have "merge_with_existing rt ?M B = keep_unseen ?k {} (?M @ B)"
    by (simp only: merge_with_existing_def merge_loop_keep_unseen append_Nil)
  also have "\<dots> = keep_unseen ?k {} ?M @ keep_unseen ?k ({} \<union> ?k ` set ?M) B"
    by (rule keep_unseen_append)
  finally have "merge_with_existing rt ?M B = keep_unseen ?k {} ?M @ keep_unseen ?k (?k ` set ?M) B"
    by simp
  moreover have "keep_unseen ?k {} ?M = ?M"
    by (rule keep_unseen_all) (simp_all add: keep_unseen_distinct)
  moreover have "keep_unseen ?k (?k ` set ?M) B = []"
    by (rule keep_unseen_none) (auto simp: keep_unseen_keys)
  ultimately show ?thesis using M by simp
qed

text \<open>
  Claim C2. \<open>merge_with_existing new existing\<close> goes through \<open>new @ existing\<close> and keeps
  a row exactly when no earlier row has its identity: the result is a subsequence of
  \<open>new @ existing\<close> (the new rows before the existing ones), its identities are distinct
  and are those of \<open>new @ existing\<close>. Merging the result with \<open>existing\<close> again gives
  the same list, and so does any number of further merges.
\<close>

theorem merge_keeps_first_and_is_idempotent:
  "merge_with_existing rt A B =
     map ((!) (A @ B))
       (filter (\<lambda>i. \<forall>j<i. row_key rt ((A @ B) ! j) \<noteq> row_key rt ((A @ B) ! i)) [0..<length (A @ B)])
   \<and> subseq (merge_with_existing rt A B) (A @ B)
   \<and> distinct (map (row_key rt) (merge_with_existing rt A B))
   \<and> row_key rt ` set (merge_with_existing rt A B) = row_key rt ` set (A @ B)
   \<and> merge_with_existing rt (merge_with_existing rt A B) B = merge_with_existing rt A B
   \<and> ((\<lambda>X. merge_with_existing rt X B) ^^ Suc n) A = merge_with_existing rt A B"
proof -
  let ?k = "row_key rt"
  have M: "merge_with_existing rt A B = keep_unseen ?k {} (A @ B)"
    by (simp add: merge_with_existing_def merge_loop_keep_unseen)
  have "filter (unseen_at ?k {} (A @ B)) [0..<length (A @ B)]
      = filter (\<lambda>i. \<forall>j<i. ?k ((A @ B) ! j) \<noteq> ?k ((A @ B) ! i)) [0..<length (A @ B)]"
    by (rule filter_cong) (simp_all add: unseen_at_empty)
  then have c1: "merge_with_existing rt A B =
     map ((!) (A @ B))
       (filter (\<lambda>i. \<forall>j<i. ?k ((A @ B) ! j) \<noteq> ?k ((A @ B) ! i)) [0..<length (A @ B)])"
    unfolding M keep_unseen_unseen_at[of ?k "{}" "A @ B"] by simp
  have iter: "((\<lambda>X. merge_with_existing rt X B) ^^ Suc n) A = merge_with_existing rt A B"
    by (induction n) (simp_all add: merge_fixed)
  have c2: "subseq (merge_with_existing rt A B) (A @ B)"
    unfolding M by (rule keep_unseen_subseq)
  have c3: "distinct (map ?k (merge_with_existing rt A B))"
    unfolding M by (rule keep_unseen_distinct)
  have c4: "?k ` set (merge_with_existing rt A B) = ?k ` set (A @ B)"
    unfolding M by (simp add: keep_unseen_keys)
  from c1 c2 c3 c4 merge_fixed[of rt A B] iter show ?thesis
    by (intro conjI)
qed

lemmas key_eval = row_key_def make_comment_key_def key_string_def text_hash_def
  encode_utf8_ignore_def utf8_char_def plain_runtime_def

lemmas example_eval = example_row_def example_new_def example_existing_def example_merged_def

theorem merge_keeps_first_and_is_idempotent_witness:
  "merge_with_existing plain_runtime example_new example_existing = example_merged
   \<and> map ((!) (example_new @ example_existing))
        (filter (\<lambda>i. \<forall>j<i. row_key plain_runtime ((example_new @ example_existing) ! j)
                          \<noteq> row_key plain_runtime ((example_new @ example_existing) ! i))
           [0..<length (example_new @ example_existing)])
      = example_merged
   \<and> merge_with_existing plain_runtime example_merged example_existing = example_merged"
proof -
  have ev: "merge_with_existing plain_runtime example_new example_existing = example_merged"
    by (simp add: merge_with_existing_def example_eval key_eval str_eval)
  from merge_keeps_first_and_is_idempotent[of plain_runtime example_new example_existing 0]
  show ?thesis unfolding ev by metis
qed

section \<open>Properties of the summary\<close>

lemma length_sub_ws: "length (sub_ws b s) \<le> length s"
  by (induction s arbitrary: b) (auto simp: le_SucI)

lemma length_strip: "length (strip s) \<le> length s"
proof -
  have "length (strip s) = length (dropWhile is_space (rev (dropWhile is_space s)))"
    by (simp add: strip_def)
  also have "\<dots> \<le> length (rev (dropWhile is_space s))"
    by (rule length_dropWhile_le)
  also have "\<dots> \<le> length s"
    by (simp add: length_dropWhile_le)
  finally show ?thesis .
qed

lemma length_normalize_whitespace: "length (normalize_whitespace s) \<le> length s"
  unfolding normalize_whitespace_def
  using length_strip[of "sub_ws False s"] length_sub_ws[of False s] by linarith

lemma rsplit_space_head_split:
  assumes "32 \<in> set s"
  shows "\<exists>p w. s = p @ 32 # w \<and> 32 \<notin> set w \<and> rsplit_space_head s = p"
proof -
  from assms obtain p w where s: "s = p @ 32 # w" and w: "32 \<notin> set w"
    by (meson split_list_last)
  have "dropWhile (\<lambda>c. c \<noteq> 32) (rev w @ 32 # rev p) = 32 # rev p"
    using w by (auto simp: dropWhile_append3)
  then have "rsplit_space_head s = p"
    using assms s by (simp add: rsplit_space_head_def)
  with s w show ?thesis by blast
qed

lemma sub_ws_no_space: "\<forall>c\<in>set s. \<not> is_space c \<Longrightarrow> sub_ws b s = s"
  by (induction s arbitrary: b) auto

lemma sub_ws_append_no_space:
  "\<forall>c\<in>set xs. \<not> is_space c \<Longrightarrow> xs \<noteq> [] \<Longrightarrow> sub_ws b (xs @ ys) = xs @ sub_ws False ys"
proof (induction xs arbitrary: b)
  case Nil
  then show ?case by simp
next
  case (Cons x xs)
  then show ?case by (cases xs) auto
qed

lemma strip_no_outer_space:
  assumes "s \<noteq> []" "\<not> is_space (hd s)" "\<not> is_space (last s)"
  shows "strip s = s"
proof -
  have "dropWhile is_space s = s"
    using assms(1,2) by (cases s) auto
  moreover have "dropWhile is_space (rev s) = rev s"
    using assms(1,3) by (cases "rev s") (auto simp: last_rev[symmetric] simp del: last_rev)
  ultimately show ?thesis by (simp add: strip_def)
qed

lemma normalize_whitespace_one_word:
  assumes "s \<noteq> []" "\<forall>c\<in>set s. \<not> is_space c"
  shows "normalize_whitespace s = s"
  using assms by (simp add: normalize_whitespace_def sub_ws_no_space strip_no_outer_space)

lemma normalize_whitespace_two_words:
  assumes "xs \<noteq> []" "ys \<noteq> []" "\<forall>c\<in>set xs. \<not> is_space c" "\<forall>c\<in>set ys. \<not> is_space c"
  shows "normalize_whitespace (xs @ 32 # ys) = xs @ 32 # ys"
proof -
  have "sub_ws False (xs @ 32 # ys) = xs @ 32 # ys"
    using assms by (simp add: sub_ws_append_no_space sub_ws_no_space is_space_def)
  moreover have "strip (xs @ 32 # ys) = xs @ 32 # ys"
    using assms by (intro strip_no_outer_space) (auto simp: hd_append)
  ultimately show ?thesis by (simp add: normalize_whitespace_def)
qed

text \<open>
  Claim C8. With \<open>c\<close> the cleaned text: the summary is \<open>c\<close> itself when \<open>c\<close> has at
  most 220 characters. Otherwise it is the first 217 characters of \<open>c\<close>, cut before
  their last space when they have one, followed by the three dots. So the summary never
  has more than 220 characters, the dots included, whatever the length of the input (300
  characters, say), and an input of 100 characters gives its cleaned text, which is the
  input itself when that is already whitespace-normalized.
\<close>

theorem short_summary_truncates:
  "(length (normalize_whitespace t) \<le> 220
      \<longrightarrow> short_summary t default_max_chars = normalize_whitespace t)
   \<and> (220 < length (normalize_whitespace t) \<and> 32 \<notin> set (take 217 (normalize_whitespace t))
      \<longrightarrow> short_summary t default_max_chars = take 217 (normalize_whitespace t) @ u ''...'')
   \<and> (220 < length (normalize_whitespace t) \<and> 32 \<in> set (take 217 (normalize_whitespace t))
      \<longrightarrow> (\<exists>p w. take 217 (normalize_whitespace t) = p @ 32 # w \<and> 32 \<notin> set w
                 \<and> short_summary t default_max_chars = p @ u ''...''))
   \<and> length (short_summary t default_max_chars) \<le> 220
   \<and> (length t = 100 \<longrightarrow> short_summary t default_max_chars = normalize_whitespace t)
   \<and> (length t = 100 \<and> normalize_whitespace t = t \<longrightarrow> short_summary t default_max_chars = t)"
proof -
  let ?c = "normalize_whitespace t"
  let ?s = "short_summary t default_max_chars"
  have short: "length ?c \<le> 220 \<Longrightarrow> ?s = ?c"
    by (simp add: short_summary_def default_max_chars_def)
  have unbroken: "220 < length ?c \<Longrightarrow> 32 \<notin> set (take 217 ?c) \<Longrightarrow> ?s = take 217 ?c @ u ''...''"
    by (simp add: short_summary_def default_max_chars_def slice_to_def Let_def)
  have broken: "\<exists>p w. take 217 ?c = p @ 32 # w \<and> 32 \<notin> set w \<and> ?s = p @ u ''...''"
    if "220 < length ?c" and sp: "32 \<in> set (take 217 ?c)"
  proof -
    from rsplit_space_head_split[OF sp] obtain p w where
      pw: "take 217 ?c = p @ 32 # w" "32 \<notin> set w" "rsplit_space_head (take 217 ?c) = p"
      by blast
    have "?s = p @ u ''...''"
      using that pw(3) by (simp add: short_summary_def default_max_chars_def slice_to_def Let_def)
    with pw show ?thesis by blast
  qed
  have len: "length ?s \<le> 220"
  proof (cases "length ?c \<le> 220")
    case True
    with short show ?thesis by simp
  next
    case False
    then have long: "220 < length ?c" by simp
    show ?thesis
    proof (cases "32 \<in> set (take 217 ?c)")
      case True
      from broken[OF long True] obtain p w where
        pw: "take 217 ?c = p @ 32 # w" "?s = p @ u ''...''" by blast
      have "length (take 217 ?c) = 217" using long by simp
      with pw(1) have "length p \<le> 216" by simp
      with pw(2) show ?thesis by (simp add: u_def)
    next
      case False
      with unbroken[OF long] show ?thesis using long by (simp add: u_def)
    qed
  qed
  have hundred: "length t = 100 \<Longrightarrow> ?s = ?c"
    using short length_normalize_whitespace[of t] by simp
  from short unbroken broken len hundred show ?thesis by simp
qed

lemma example_long_clean: "normalize_whitespace example_long = example_long"
  unfolding example_long_def
  using normalize_whitespace_two_words[of "replicate 150 120" "replicate 149 121"]
  by (simp add: is_space_def)

lemma example_unbroken_clean: "normalize_whitespace example_unbroken = example_unbroken"
  unfolding example_unbroken_def
  by (rule normalize_whitespace_one_word) (simp_all add: is_space_def)

lemma example_short_clean: "normalize_whitespace example_short = example_short"
  unfolding example_short_def
  by (rule normalize_whitespace_one_word) (simp_all add: is_space_def)

lemma example_long_summary:
  "short_summary example_long default_max_chars = replicate 150 120 @ u ''...''"
  unfolding short_summary_def example_long_clean Let_def
  by (simp add: example_long_def default_max_chars_def slice_to_def rsplit_space_head_def
        dropWhile_append3 dropWhile_replicate)

theorem short_summary_truncates_witness:
  "length example_long = 300
   \<and> 220 < length (normalize_whitespace example_long)
   \<and> 32 \<in> set (take 217 (normalize_whitespace example_long))
   \<and> short_summary example_long default_max_chars = replicate 150 120 @ u ''...''
   \<and> length (short_summary example_long default_max_chars) \<le> 220
   \<and> 220 < length (normalize_whitespace example_unbroken)
   \<and> 32 \<notin> set (take 217 (normalize_whitespace example_unbroken))
   \<and> short_summary example_unbroken default_max_chars = replicate 217 120 @ u ''...''
   \<and> length example_short = 100
   \<and> normalize_whitespace example_short = example_short
   \<and> short_summary example_short default_max_chars = example_short"
proof -
  have l1: "length example_long = 300"
    by (simp add: example_long_def)
  have l2: "220 < length (normalize_whitespace example_long)"
    by (simp only: example_long_clean) (simp add: example_long_def)
  have l3: "32 \<in> set (take 217 (normalize_whitespace example_long))"
    by (simp only: example_long_clean) (simp add: example_long_def)
  have l4: "length (short_summary example_long default_max_chars) \<le> 220"
    using short_summary_truncates[of example_long] by blast
  have u1: "220 < length (normalize_whitespace example_unbroken)"
    by (simp only: example_unbroken_clean) (simp add: example_unbroken_def)
  have u2: "32 \<notin> set (take 217 (normalize_whitespace example_unbroken))"
    by (simp only: example_unbroken_clean) (simp add: example_unbroken_def)
  have "short_summary example_unbroken default_max_chars
          = take 217 (normalize_whitespace example_unbroken) @ u ''...''"
    using short_summary_truncates[of example_unbroken] u1 u2 by blast
  then have u3: "short_summary example_unbroken default_max_chars = replicate 217 120 @ u ''...''"
    by (simp only: example_unbroken_clean) (simp add: example_unbroken_def)
  have s1: "length example_short = 100"
    by (simp add: example_short_def)
  have s2: "short_summary example_short default_max_chars = example_short"
    using short_summary_truncates[of example_short] s1 example_short_clean by blast
  from l1 l2 l3 example_long_summary l4 u1 u2 u3 s1 example_short_clean s2
  show ?thesis by (intro conjI)
qed

section \<open>Properties of the heuristic sentiment\<close>

lemmas sentiment_eval = heuristic_sentiment_def sentiment_delta_def sentiment_counts_def
  POSITIVE_WORDS_def NEGATIVE_WORDS_def POSITIVE_EMOJI_def NEGATIVE_EMOJI_def
  DEFAULT_SENTIMENT_SCORE_def is_ascii_alpha_def is_word_char_def word_boundary_def next_char_def
  match_alternatives_def match_negation_here_def NEGATORS_def NEGATED_GOOD_def NEGATED_BAD_def
  has_alphabetic_def round4_def round_half_even_def

lemma count_tokens_nat:
  "\<exists>a b. count_tokens ws (real m, real n) = (real a, real (b::nat))"
proof (induction ws arbitrary: m n)
  case Nil
  show ?case by auto
next
  case (Cons w ws)
  have "count_tokens (w # ws) (real m, real n)
      = count_tokens ws (real (if w \<in> set POSITIVE_WORDS then m + 1 else m),
                         real (if w \<in> set NEGATIVE_WORDS then n + 1 else n))"
    by (simp add: add.commute)
  with Cons show ?case by presburger
qed

lemma sentiment_delta_half: "\<exists>k::int. sentiment_delta rt s = of_int k / 2"
proof -
  obtain a b :: nat where ab: "count_tokens (findall_words [] s) (0, 0) = (real a, real b)"
    using count_tokens_nat[of "findall_words [] s" 0 0] by auto
  define ep where "ep = sum_list (map (\<lambda>x. str_count x s) POSITIVE_EMOJI)"
  define en where "en = sum_list (map (\<lambda>x. str_count x s) NEGATIVE_EMOJI)"
  define fg :: int where "fg = (if search_negation rt NEGATORS NEGATED_GOOD None s then 1 else 0)"
  define fb :: int where "fb = (if search_negation rt NEGATORS NEGATED_BAD None s then 1 else 0)"
  have "sentiment_delta rt s
      = of_int (2 * int a + int ep + 2 * fb - 2 * int b - int en - 2 * fg) / 2"
    by (simp add: sentiment_delta_def sentiment_counts_def ab Let_def ep_def en_def fg_def fb_def)
  then show ?thesis by blast
qed

lemma round_half_even_int: "round_half_even (of_int z) = z"
  by (simp add: round_half_even_def)

lemma round4_int: "round4 (of_int z / 10000) = of_int z / 10000"
  by (simp add: round4_def round_half_even_int)

lemma round4_score:
  fixes d :: real
  assumes "d = of_int k / 2"
  shows "round4 (min 0.99 (0.55 + min \<bar>d\<bar> 5.0 * 0.08)) = min 0.99 (0.55 + min \<bar>d\<bar> 5.0 * 0.08)"
proof -
  define m :: int where "m = min \<bar>k\<bar> 10"
  have md: "min \<bar>d\<bar> 5.0 = of_int m / 2"
    unfolding assms m_def by (simp add: min_def abs_if) 
  have m_le: "m \<le> 10" by (simp add: m_def)
  have sc: "0.55 + min \<bar>d\<bar> 5.0 * 0.08 = (of_int (5500 + 400 * m) :: real) / 10000"
    unfolding md by simp
  have le: "(of_int (5500 + 400 * m) :: real) / 10000 \<le> 0.99"
  proof -
    have "5500 + 400 * m \<le> 9500" using m_le by simp
    then have "(of_int (5500 + 400 * m) :: real) \<le> 9500" by linarith
    then show ?thesis by simp
  qed
  have "round4 ((of_int (5500 + 400 * m) :: real) / 10000) = of_int (5500 + 400 * m) / 10000"
    by (rule round4_int)
  with le show ?thesis unfolding sc by (simp only: min_absorb2)
qed

lemma heuristic_great:
  "heuristic_sentiment rt (u ''This is great, thank you!'') = \<lparr>sr_sentiment = u ''positive'', sr_score = 0.71\<rparr>"
  by (simp add: sentiment_eval str_eval)

lemma heuristic_worst:
  "heuristic_sentiment rt (u ''This is the worst, such a waste'') = \<lparr>sr_sentiment = u ''negative'', sr_score = 0.71\<rparr>"
  by (simp add: sentiment_eval str_eval)

lemma heuristic_not_good:
  "heuristic_sentiment rt (u ''this is not good'') = \<lparr>sr_sentiment = u ''negative'', sr_score = 0.63\<rparr>"
  by (simp add: sentiment_eval str_eval)

lemma heuristic_not_bad_at_all:
  "heuristic_sentiment rt (u ''not bad at all'') = \<lparr>sr_sentiment = u ''negative'', sr_score = 0.63\<rparr>"
  by (simp add: sentiment_eval str_eval)

lemma search_not_good: "search_negation rt NEGATORS NEGATED_GOOD None (u ''this is not good'')"
  by (simp add: sentiment_eval str_eval)

lemma lowered_great:
  "lower rt (normalize_whitespace (u ''This is great, thank you!'')) = u ''this is great, thank you!''"
  by (simp add: str_eval)

lemma delta_great: "sentiment_delta rt (u ''this is great, thank you!'') = 2"
  by (simp add: sentiment_eval str_eval)

lemma lowered_worst:
  "lower rt (normalize_whitespace (u ''This is the worst, such a waste'')) = u ''this is the worst, such a waste''"
  by (simp add: str_eval)

lemma delta_worst: "sentiment_delta rt (u ''this is the worst, such a waste'') = - 2"
  by (simp add: sentiment_eval str_eval)

lemma lowered_bad: "lower rt (normalize_whitespace (u ''bad'')) = u ''bad''"
  by (simp add: str_eval)

lemma delta_bad: "sentiment_delta rt (u ''bad'') = - 1"
  by (simp add: sentiment_eval str_eval)

lemma lowered_thumbs:
  "lower plain_runtime (normalize_whitespace [128077, 128077, 128077, 128077])
     = [128077, 128077, 128077, 128077]"
  by (simp add: str_eval plain_runtime_def)

lemma heuristic_thumbs:
  "heuristic_sentiment plain_runtime [128077, 128077, 128077, 128077]
     = \<lparr>sr_sentiment = u ''positive'', sr_score = 0.71\<rparr>"
  by (simp add: sentiment_eval str_eval plain_runtime_def)

text \<open>
  Claim C3, as the code has it. The classifier returns unknown with score 0.00 at once
  when the cleaned text is empty or its lower-cased form has at most three characters.
  Otherwise, with \<open>delta\<close> the positive score minus the negative score, it returns
  positive when \<open>delta > 0.35\<close> and negative when \<open>delta < -0.35\<close>, both with the score
  \<open>min 0.99 (0.55 + min |delta| 5 * 0.08)\<close>; else neutral with 0.50 when the lower-cased
  text has a letter \<open>a-z\<close>, \<open>A-Z\<close> or a code point from \<open>U+0900\<close> to \<open>U+0D7F\<close>, and
  unknown with 0.00 when it has none. The rounding to four decimals changes none of these
  scores, since \<open>delta\<close> is a multiple of one half.
\<close>

theorem heuristic_sentiment_classifies:
  "(normalize_whitespace t = [] \<or> length (lower rt (normalize_whitespace t)) \<le> 3
      \<longrightarrow> heuristic_sentiment rt t = \<lparr>sr_sentiment = u ''unknown'', sr_score = 0\<rparr>)
   \<and> (normalize_whitespace t \<noteq> [] \<and> 3 < length (lower rt (normalize_whitespace t))
      \<longrightarrow> (0.35 < sentiment_delta rt (lower rt (normalize_whitespace t))
             \<longrightarrow> heuristic_sentiment rt t =
                   \<lparr>sr_sentiment = u ''positive'',
                    sr_score = min 0.99 (0.55 + min \<bar>sentiment_delta rt (lower rt (normalize_whitespace t))\<bar> 5 * 0.08)\<rparr>)
        \<and> (sentiment_delta rt (lower rt (normalize_whitespace t)) < - 0.35
             \<longrightarrow> heuristic_sentiment rt t =
                   \<lparr>sr_sentiment = u ''negative'',
                    sr_score = min 0.99 (0.55 + min \<bar>sentiment_delta rt (lower rt (normalize_whitespace t))\<bar> 5 * 0.08)\<rparr>)
        \<and> (- 0.35 \<le> sentiment_delta rt (lower rt (normalize_whitespace t))
            \<and> sentiment_delta rt (lower rt (normalize_whitespace t)) \<le> 0.35
            \<and> has_alphabetic (lower rt (normalize_whitespace t))
             \<longrightarrow> heuristic_sentiment rt t = \<lparr>sr_sentiment = u ''neutral'', sr_score = 0.50\<rparr>)
        \<and> (- 0.35 \<le> sentiment_delta rt (lower rt (normalize_whitespace t))
            \<and> sentiment_delta rt (lower rt (normalize_whitespace t)) \<le> 0.35
            \<and> \<not> has_alphabetic (lower rt (normalize_whitespace t))
             \<longrightarrow> heuristic_sentiment rt t = \<lparr>sr_sentiment = u ''unknown'', sr_score = 0.00\<rparr>))"
proof -
  let ?l = "lower rt (normalize_whitespace t)"
  let ?d = "sentiment_delta rt ?l"
  let ?h = "heuristic_sentiment rt t"
  define sc where "sc = min 0.99 (0.55 + min \<bar>?d\<bar> 5 * 0.08)"
  obtain k :: int where k: "?d = of_int k / 2"
    using sentiment_delta_half by blast
  have sc5: "min 0.99 (0.55 + min \<bar>?d\<bar> 5.0 * 0.08) = sc"
    by (simp add: sc_def)
  have r: "round4 sc = sc"
    using round4_score[OF k] unfolding sc5 .
  have r0: "round4 0 = 0" "round4 0.50 = 0.50"
    by (simp_all add: round4_def round_half_even_def Let_def)
  have lab: "u ''positive'' \<noteq> u ''negative''" "u ''neutral'' \<noteq> u ''positive''"
    "u ''neutral'' \<noteq> u ''negative''" "u ''unknown'' \<noteq> u ''positive''"
    "u ''unknown'' \<noteq> u ''negative''" "u ''unknown'' \<noteq> u ''neutral''"
    by (simp_all add: u_def)
  have early: "?h = \<lparr>sr_sentiment = u ''unknown'', sr_score = 0\<rparr>"
    if "normalize_whitespace t = [] \<or> length ?l \<le> 3"
    using that by (auto simp: heuristic_sentiment_def Let_def DEFAULT_SENTIMENT_SCORE_def lab)
  have pos: "?h = \<lparr>sr_sentiment = u ''positive'', sr_score = sc\<rparr>"
    if "normalize_whitespace t \<noteq> []" "3 < length ?l" "0.35 < ?d"
  proof -
    have "?h = \<lparr>sr_sentiment = u ''positive'',
                sr_score = round4 (min 0.99 (0.55 + min \<bar>?d\<bar> 5.0 * 0.08))\<rparr>"
      using that by (simp add: heuristic_sentiment_def Let_def lab)
    then show ?thesis by (simp only: sc5 r)
  qed
  have neg: "?h = \<lparr>sr_sentiment = u ''negative'', sr_score = sc\<rparr>"
    if "normalize_whitespace t \<noteq> []" "3 < length ?l" "?d < - 0.35"
  proof -
    have "?h = \<lparr>sr_sentiment = u ''negative'',
                sr_score = round4 (min 0.99 (0.55 + min \<bar>?d\<bar> 5.0 * 0.08))\<rparr>"
      using that by (simp add: heuristic_sentiment_def Let_def lab)
    then show ?thesis by (simp only: sc5 r)
  qed
  have neu: "?h = \<lparr>sr_sentiment = u ''neutral'', sr_score = 0.50\<rparr>"
    if "normalize_whitespace t \<noteq> []" "3 < length ?l" "- 0.35 \<le> ?d" "?d \<le> 0.35" "has_alphabetic ?l"
  proof -
    have "?h = \<lparr>sr_sentiment = u ''neutral'', sr_score = round4 0.50\<rparr>"
      using that by (simp add: heuristic_sentiment_def Let_def lab DEFAULT_SENTIMENT_SCORE_def)
    then show ?thesis by (simp only: r0)
  qed
  have unk: "?h = \<lparr>sr_sentiment = u ''unknown'', sr_score = 0.00\<rparr>"
    if "normalize_whitespace t \<noteq> []" "3 < length ?l" "- 0.35 \<le> ?d" "?d \<le> 0.35" "\<not> has_alphabetic ?l"
  proof -
    have "?h = \<lparr>sr_sentiment = u ''unknown'', sr_score = round4 0\<rparr>"
      using that by (simp add: heuristic_sentiment_def Let_def lab DEFAULT_SENTIMENT_SCORE_def)
    then show ?thesis by (simp add: r0)
  qed
  show ?thesis
    unfolding sc_def[symmetric] using early pos neg neu unk by blast
qed


theorem heuristic_sentiment_classifies_witness:
  "normalize_whitespace (u ''bad'') \<noteq> []
   \<and> length (lower plain_runtime (normalize_whitespace (u ''bad''))) \<le> 3
   \<and> heuristic_sentiment plain_runtime (u ''bad'') = \<lparr>sr_sentiment = u ''unknown'', sr_score = 0\<rparr>
   \<and> normalize_whitespace (u ''This is great, thank you!'') \<noteq> []
   \<and> 3 < length (lower plain_runtime (normalize_whitespace (u ''This is great, thank you!'')))
   \<and> 0.35 < sentiment_delta plain_runtime (lower plain_runtime (normalize_whitespace (u ''This is great, thank you!'')))
   \<and> heuristic_sentiment plain_runtime (u ''This is great, thank you!'')
       = \<lparr>sr_sentiment = u ''positive'', sr_score = 0.71\<rparr>
   \<and> sentiment_delta plain_runtime (lower plain_runtime (normalize_whitespace (u ''This is the worst, such a waste''))) < - 0.35
   \<and> heuristic_sentiment plain_runtime (u ''This is the worst, such a waste'')
       = \<lparr>sr_sentiment = u ''negative'', sr_score = 0.71\<rparr>"
proof -
  have b1: "normalize_whitespace (u ''bad'') \<noteq> []" by (simp add: str_eval)
  have b2: "length (lower plain_runtime (normalize_whitespace (u ''bad''))) \<le> 3"
    by (simp add: lowered_bad) (simp add: u_def)
  have b3: "heuristic_sentiment plain_runtime (u ''bad'') = \<lparr>sr_sentiment = u ''unknown'', sr_score = 0\<rparr>"
    using heuristic_sentiment_classifies[of "u ''bad''" plain_runtime] b2 by blast
  have g1: "normalize_whitespace (u ''This is great, thank you!'') \<noteq> []" by (simp add: str_eval)
  have g2: "3 < length (lower plain_runtime (normalize_whitespace (u ''This is great, thank you!'')))"
    by (simp add: lowered_great) (simp add: u_def)
  have g3: "0.35 < sentiment_delta plain_runtime (lower plain_runtime (normalize_whitespace (u ''This is great, thank you!'')))"
    by (simp add: lowered_great delta_great)
  have "heuristic_sentiment plain_runtime (u ''This is great, thank you!'')
       = \<lparr>sr_sentiment = u ''positive'',
          sr_score = min 0.99 (0.55 + min \<bar>sentiment_delta plain_runtime (lower plain_runtime (normalize_whitespace (u ''This is great, thank you!'')))\<bar> 5 * 0.08)\<rparr>"
    using heuristic_sentiment_classifies[of "u ''This is great, thank you!''" plain_runtime] g1 g2 g3 by blast
  then have g4: "heuristic_sentiment plain_runtime (u ''This is great, thank you!'')
       = \<lparr>sr_sentiment = u ''positive'', sr_score = 0.71\<rparr>"
    by (simp add: lowered_great delta_great)
  have w1: "normalize_whitespace (u ''This is the worst, such a waste'') \<noteq> []" by (simp add: str_eval)
  have w2: "3 < length (lower plain_runtime (normalize_whitespace (u ''This is the worst, such a waste'')))"
    by (simp add: lowered_worst) (simp add: u_def)
  have w3: "sentiment_delta plain_runtime (lower plain_runtime (normalize_whitespace (u ''This is the worst, such a waste''))) < - 0.35"
    by (simp add: lowered_worst delta_worst)
  have "heuristic_sentiment plain_runtime (u ''This is the worst, such a waste'')
       = \<lparr>sr_sentiment = u ''negative'',
          sr_score = min 0.99 (0.55 + min \<bar>sentiment_delta plain_runtime (lower plain_runtime (normalize_whitespace (u ''This is the worst, such a waste'')))\<bar> 5 * 0.08)\<rparr>"
    using heuristic_sentiment_classifies[of "u ''This is the worst, such a waste''" plain_runtime] w1 w2 w3 by blast
  then have w4: "heuristic_sentiment plain_runtime (u ''This is the worst, such a waste'')
       = \<lparr>sr_sentiment = u ''negative'', sr_score = 0.71\<rparr>"
    by (simp add: lowered_worst delta_worst)
  from b1 b2 b3 g1 g2 g3 g4 w3 w4 show ?thesis by (intro conjI)
qed

text \<open>
  The text \<open>bad\<close> has three characters: its \<open>delta\<close> is \<open>-1\<close>, and the result is unknown
  with score 0, not negative.
\<close>

theorem heuristic_sentiment_classifies_counterexample:
  "normalize_whitespace (u ''bad'') \<noteq> []
   \<and> sentiment_delta plain_runtime (lower plain_runtime (normalize_whitespace (u ''bad''))) < - 0.35
   \<and> sr_sentiment (heuristic_sentiment plain_runtime (u ''bad'')) = u ''unknown''
   \<and> sr_sentiment (heuristic_sentiment plain_runtime (u ''bad'')) \<noteq> u ''negative''
   \<and> sr_score (heuristic_sentiment plain_runtime (u ''bad'')) = 0"
proof -
  have "heuristic_sentiment plain_runtime (u ''bad'') = \<lparr>sr_sentiment = u ''unknown'', sr_score = 0\<rparr>"
    by (simp add: sentiment_eval str_eval)
  moreover have "u ''unknown'' \<noteq> u ''negative''" by (simp add: u_def)
  moreover have "normalize_whitespace (u ''bad'') \<noteq> []" by (simp add: str_eval)
  ultimately show ?thesis by (simp add: lowered_bad delta_bad)
qed


lemma findall_words_no_alpha:
  "\<forall>c\<in>set s. \<not> is_ascii_alpha c \<Longrightarrow> set cur \<subseteq> {39}
    \<Longrightarrow> \<forall>w\<in>set (findall_words cur s). w \<noteq> [] \<and> set w \<subseteq> {39}"
proof (induction s arbitrary: cur)
  case Nil
  then show ?case by simp
next
  case (Cons c cs)
  show ?case
  proof (cases "c = 39")
    case True
    have "set (cur @ [c]) \<subseteq> {39}" using Cons.prems(2) True by simp
    with Cons.IH[of "cur @ [c]"] Cons.prems(1) True show ?thesis by simp
  next
    case False
    with Cons.IH[of "[]"] Cons.prems show ?thesis by auto
  qed
qed

lemma sentiment_words_start_with_letter:
  "w \<in> set POSITIVE_WORDS \<union> set NEGATIVE_WORDS \<Longrightarrow> \<not> set w \<subseteq> {39}"
  by (auto simp: POSITIVE_WORDS_def NEGATIVE_WORDS_def u_def)

lemma count_tokens_none:
  "\<forall>w\<in>set ws. w \<notin> set POSITIVE_WORDS \<and> w \<notin> set NEGATIVE_WORDS
    \<Longrightarrow> count_tokens ws (p, n) = (p, n)"
  by (induction ws arbitrary: p n) auto

lemma match_negators_needs_n: "c \<noteq> 110 \<Longrightarrow> match_alternatives NEGATORS (c # cs) = []"
  by (simp add: match_alternatives_def NEGATORS_def u_def)

lemma search_negation_needs_n:
  "110 \<notin> set s \<Longrightarrow> \<not> search_negation rt NEGATORS seconds before s"
  by (induction s arbitrary: before)
     (auto simp: match_negation_here_def match_negators_needs_n)

lemma sum_list_zero: "\<forall>x\<in>set xs. f x = (0::nat) \<Longrightarrow> sum_list (map f xs) = 0"
  by (induction xs) auto

lemma no_alpha_no_emoji_delta:
  assumes "\<not> has_alphabetic s"
    and "\<forall>e\<in>set (POSITIVE_EMOJI @ NEGATIVE_EMOJI). str_count e s = 0"
  shows "sentiment_delta rt s = 0"
proof -
  have na: "\<forall>c\<in>set s. \<not> is_ascii_alpha c"
    using assms(1) by (auto simp: has_alphabetic_def list_ex_iff)
  have "\<forall>w\<in>set (findall_words [] s). w \<notin> set POSITIVE_WORDS \<and> w \<notin> set NEGATIVE_WORDS"
    using findall_words_no_alpha[OF na, of "[]"] sentiment_words_start_with_letter by auto
  then have ct: "count_tokens (findall_words [] s) (0, 0) = (0, 0)"
    by (rule count_tokens_none)
  have "110 \<notin> set s"
    using na by (auto simp: is_ascii_alpha_def)
  then have sn: "\<not> search_negation rt NEGATORS NEGATED_GOOD None s"
    "\<not> search_negation rt NEGATORS NEGATED_BAD None s"
    by (simp_all add: search_negation_needs_n)
  have em: "sum_list (map (\<lambda>x. str_count x s) POSITIVE_EMOJI) = 0"
    "sum_list (map (\<lambda>x. str_count x s) NEGATIVE_EMOJI) = 0"
    using assms(2) by (auto intro!: sum_list_zero)
  show ?thesis
    by (simp add: sentiment_delta_def sentiment_counts_def ct sn em del: sum_list_eq_0_iff)
qed

lemma heuristic_not_good_words:
  "heuristic_sentiment rt (u ''not good'') = \<lparr>sr_sentiment = u ''negative'', sr_score = 0.63\<rparr>"
  "heuristic_sentiment rt (u ''not great'') = \<lparr>sr_sentiment = u ''negative'', sr_score = 0.63\<rparr>"
  "heuristic_sentiment rt (u ''not excellent'') = \<lparr>sr_sentiment = u ''negative'', sr_score = 0.63\<rparr>"
  "heuristic_sentiment rt (u ''not super'') = \<lparr>sr_sentiment = u ''negative'', sr_score = 0.63\<rparr>"
  "heuristic_sentiment rt (u ''not nice'') = \<lparr>sr_sentiment = u ''negative'', sr_score = 0.63\<rparr>"
  by (simp_all add: sentiment_eval str_eval)

lemma not_good_phrases:
  "map (\<lambda>w. u ''not '' @ w) NEGATED_GOOD
     = [u ''not good'', u ''not great'', u ''not excellent'', u ''not super'', u ''not nice'']"
  by (simp add: NEGATED_GOOD_def u_def)

lemma heuristic_not_good_class:
  "list_all (\<lambda>w. heuristic_sentiment rt (u ''not '' @ w)
                  = \<lparr>sr_sentiment = u ''negative'', sr_score = 0.63\<rparr>) NEGATED_GOOD"
proof -
  have "list_all (\<lambda>s. heuristic_sentiment rt s = \<lparr>sr_sentiment = u ''negative'', sr_score = 0.63\<rparr>)
          (map (\<lambda>w. u ''not '' @ w) NEGATED_GOOD)"
    unfolding not_good_phrases by (simp add: heuristic_not_good_words)
  then show ?thesis by (simp add: list_all_iff)
qed

lemma no_alpha_no_emoji_unknown:
  assumes "\<not> has_alphabetic (lower rt (normalize_whitespace t))"
    and "list_all (\<lambda>e. str_count e (lower rt (normalize_whitespace t)) = 0)
           (POSITIVE_EMOJI @ NEGATIVE_EMOJI)"
  shows "heuristic_sentiment rt t = \<lparr>sr_sentiment = u ''unknown'', sr_score = 0.0\<rparr>"
proof -
  have "\<forall>e\<in>set (POSITIVE_EMOJI @ NEGATIVE_EMOJI).
          str_count e (lower rt (normalize_whitespace t)) = 0"
    using assms(2) by (simp only: list_all_iff)
  with assms(1) have d: "sentiment_delta rt (lower rt (normalize_whitespace t)) = 0"
    by (rule no_alpha_no_emoji_delta)
  have r0: "round4 0 = 0" by (simp add: round4_def round_half_even_def)
  have lab: "u ''unknown'' \<noteq> u ''positive''" "u ''unknown'' \<noteq> u ''negative''"
    "u ''unknown'' \<noteq> u ''neutral''"
    by (simp_all add: u_def)
  show ?thesis
    using assms(1) d r0 lab by (simp add: heuristic_sentiment_def Let_def DEFAULT_SENTIMENT_SCORE_def)
qed

text \<open>
  Claim C4, as the code has it. The word \<open>not\<close> followed by one of \<open>good\<close>, \<open>great\<close>,
  \<open>excellent\<close>, \<open>super\<close>, \<open>nice\<close> is negative, and so is \<open>this is not good\<close>.
  \<open>This is great, thank you!\<close> is positive and \<open>This is the worst, such a waste\<close> is
  negative, both with score 0.71, above 0.55. A text whose cleaned, lower-cased form has no
  letter \<open>a-z\<close>, \<open>A-Z\<close>, no code point from \<open>U+0900\<close> to \<open>U+0D7F\<close> and none of the
  listed emoji is unknown with score 0.0.
\<close>

theorem heuristic_sentiment_examples:
  "list_all (\<lambda>w. heuristic_sentiment rt (u ''not '' @ w)
                  = \<lparr>sr_sentiment = u ''negative'', sr_score = 0.63\<rparr>) NEGATED_GOOD
   \<and> heuristic_sentiment rt (u ''this is not good'') = \<lparr>sr_sentiment = u ''negative'', sr_score = 0.63\<rparr>
   \<and> heuristic_sentiment rt (u ''This is great, thank you!'')
       = \<lparr>sr_sentiment = u ''positive'', sr_score = 0.71\<rparr>
   \<and> heuristic_sentiment rt (u ''This is the worst, such a waste'')
       = \<lparr>sr_sentiment = u ''negative'', sr_score = 0.71\<rparr>
   \<and> (0.55::real) < 0.71
   \<and> (\<not> has_alphabetic (lower rt (normalize_whitespace t))
      \<and> list_all (\<lambda>e. str_count e (lower rt (normalize_whitespace t)) = 0)
            (POSITIVE_EMOJI @ NEGATIVE_EMOJI)
      \<longrightarrow> heuristic_sentiment rt t = \<lparr>sr_sentiment = u ''unknown'', sr_score = 0.0\<rparr>)"
proof (intro conjI impI)
  show "list_all (\<lambda>w. heuristic_sentiment rt (u ''not '' @ w)
                  = \<lparr>sr_sentiment = u ''negative'', sr_score = 0.63\<rparr>) NEGATED_GOOD"
    by (rule heuristic_not_good_class)
  show "heuristic_sentiment rt (u ''this is not good'') = \<lparr>sr_sentiment = u ''negative'', sr_score = 0.63\<rparr>"
    by (rule heuristic_not_good)
  show "heuristic_sentiment rt (u ''This is great, thank you!'')
       = \<lparr>sr_sentiment = u ''positive'', sr_score = 0.71\<rparr>"
    by (rule heuristic_great)
  show "heuristic_sentiment rt (u ''This is the worst, such a waste'')
       = \<lparr>sr_sentiment = u ''negative'', sr_score = 0.71\<rparr>"
    by (rule heuristic_worst)
  show "(0.55::real) < 0.71" by simp
  show "heuristic_sentiment rt t = \<lparr>sr_sentiment = u ''unknown'', sr_score = 0.0\<rparr>"
    if "\<not> has_alphabetic (lower rt (normalize_whitespace t))
      \<and> list_all (\<lambda>e. str_count e (lower rt (normalize_whitespace t)) = 0)
            (POSITIVE_EMOJI @ NEGATIVE_EMOJI)"
    using that no_alpha_no_emoji_unknown by blast
qed


theorem heuristic_sentiment_examples_witness:
  "\<not> has_alphabetic (lower plain_runtime (normalize_whitespace (u ''12345 !?'')))
   \<and> list_all (\<lambda>e. str_count e (lower plain_runtime (normalize_whitespace (u ''12345 !?''))) = 0)
        (POSITIVE_EMOJI @ NEGATIVE_EMOJI)
   \<and> heuristic_sentiment plain_runtime (u ''12345 !?'') = \<lparr>sr_sentiment = u ''unknown'', sr_score = 0.0\<rparr>"
proof -
  have l: "lower plain_runtime (normalize_whitespace (u ''12345 !?'')) = u ''12345 !?''"
    by (simp add: str_eval)
  have h1: "\<not> has_alphabetic (lower plain_runtime (normalize_whitespace (u ''12345 !?'')))"
    unfolding l by (simp add: has_alphabetic_def is_ascii_alpha_def u_def)
  have h2: "list_all (\<lambda>e. str_count e (lower plain_runtime (normalize_whitespace (u ''12345 !?''))) = 0)
        (POSITIVE_EMOJI @ NEGATIVE_EMOJI)"
    unfolding l by (simp add: POSITIVE_EMOJI_def NEGATIVE_EMOJI_def u_def)
  from heuristic_sentiment_examples[where rt = plain_runtime and t = "u ''12345 !?''"] h1 h2
  show ?thesis by blast
qed

text \<open>
  Four thumbs-up emoji have no letter and match no script, and are positive with score
  0.71, not unknown.
\<close>

theorem heuristic_sentiment_examples_counterexample:
  "\<not> has_alphabetic (lower plain_runtime (normalize_whitespace [128077, 128077, 128077, 128077]))
   \<and> detect_language_from_script [128077, 128077, 128077, 128077] = u ''Unknown''
   \<and> heuristic_sentiment plain_runtime [128077, 128077, 128077, 128077]
       = \<lparr>sr_sentiment = u ''positive'', sr_score = 0.71\<rparr>
   \<and> u ''positive'' \<noteq> u ''unknown''"
proof -
  have a: "\<not> has_alphabetic (lower plain_runtime (normalize_whitespace [128077, 128077, 128077, 128077]))"
    unfolding lowered_thumbs by (simp add: has_alphabetic_def is_ascii_alpha_def)
  have b: "detect_language_from_script [128077, 128077, 128077, 128077] = u ''Unknown''"
    by (simp add: detect_language_from_script_def SCRIPT_PATTERNS_def is_ascii_alpha_def)
  have c: "u ''positive'' \<noteq> u ''unknown''"
    by (simp add: u_def)
  from a b c heuristic_thumbs
  show ?thesis by (intro conjI)
qed

section \<open>Properties of the pagination\<close>

lemma add_new_rows_keep_unseen:
  "add_new_rows rt rows (coll, seen, n) =
     (coll @ keep_unseen (raw_key rt) seen rows, seen \<union> raw_key rt ` set rows,
      n + length (keep_unseen (raw_key rt) seen rows))"
proof (induction rows arbitrary: coll seen n)
  case Nil
  show ?case by simp
next
  case (Cons r rs)
  show ?case
  proof (cases "raw_key rt r \<in> seen")
    case True
    then have "seen \<union> insert (raw_key rt r) (raw_key rt ` set rs) = seen \<union> raw_key rt ` set rs"
      by auto
    with True Cons show ?thesis by (simp add: Let_def)
  next
    case False
    have "insert (raw_key rt r) seen \<union> raw_key rt ` set rs
        = seen \<union> insert (raw_key rt r) (raw_key rt ` set rs)" by auto
    with False Cons show ?thesis by (simp add: Let_def)
  qed
qed

lemma keep_unseen_Nil_iff: "keep_unseen k seen xs = [] \<longleftrightarrow> k ` set xs \<subseteq> seen"
  by (induction xs arbitrary: seen) auto

lemma try_tokens_requested:
  "try_tokens w toks = Inr (rows, req) \<Longrightarrow> set req \<subseteq> set toks"
proof (induction toks arbitrary: rows req)
  case Nil
  then show ?case by simp
next
  case (Cons t ts)
  then show ?case
    by (auto split: sum.splits if_splits prod.splits)
qed

lemma page_tokens_eval:
  "page_tokens 0 = [u ''0'']" "page_tokens 1 = [u ''0,1'', u ''1'']"
  "page_tokens 2 = [u ''0,2'', u ''2'']" "page_tokens 3 = [u ''0,3'', u ''3'']"
  "page_tokens 4 = [u ''0,4'', u ''4'']" "page_tokens 5 = [u ''0,5'', u ''5'']"
  by (simp_all add: page_tokens_def str_nat.simps u_def)

lemma paginate_empty_continue:
  assumes "try_tokens w (page_tokens i) = Inr ([], req)" and "i = 0 \<or> empty_streak st = 0"
  shows "paginate rt w (i # rest) st =
           paginate rt w rest (st\<lparr>empty_streak := empty_streak st + 1,
                                   requested_tokens := requested_tokens st @ req\<rparr>)"
  using assms by (auto simp: Let_def)

lemma paginate_empty_stop:
  assumes "try_tokens w (page_tokens i) = Inr ([], req)" and "0 < i" and "1 \<le> empty_streak st"
  shows "paginate rt w (i # rest) st =
           Inr (st\<lparr>empty_streak := empty_streak st + 1,
                    requested_tokens := requested_tokens st @ req\<rparr>)"
  using assms by (auto simp: Let_def)

lemma paginate_rows_continue:
  assumes "try_tokens w (page_tokens i) = Inr (rows, req)" and "rows \<noteq> []"
    and "i = 0 \<or> \<not> raw_key rt ` set rows \<subseteq> seen_keys st"
  shows "paginate rt w (i # rest) st =
           paginate rt w rest
             \<lparr>collected = collected st @ keep_unseen (raw_key rt) (seen_keys st) rows,
              seen_keys = seen_keys st \<union> raw_key rt ` set rows,
              empty_streak = 0,
              requested_tokens = requested_tokens st @ req\<rparr>"
  using assms by (auto simp: Let_def add_new_rows_keep_unseen keep_unseen_Nil_iff)

lemma paginate_rows_stop:
  assumes "try_tokens w (page_tokens i) = Inr (rows, req)" and "rows \<noteq> []"
    and "0 < i" and "raw_key rt ` set rows \<subseteq> seen_keys st"
  shows "paginate rt w (i # rest) st =
           Inr \<lparr>collected = collected st, seen_keys = seen_keys st, empty_streak = 0,
                requested_tokens = requested_tokens st @ req\<rparr>"
proof -
  have "keep_unseen (raw_key rt) (seen_keys st) rows = []"
    using assms(4) by (simp add: keep_unseen_Nil_iff)
  moreover have "seen_keys st \<union> raw_key rt ` set rows = seen_keys st"
    using assms(4) by auto
  ultimately show ?thesis
    using assms(1,2,3) by (simp add: Let_def add_new_rows_keep_unseen)
qed

lemma paginate_requested:
  "paginate rt w idxs st = Inr st' \<Longrightarrow>
     set (requested_tokens st') \<subseteq> set (requested_tokens st) \<union> (\<Union>i\<in>set idxs. set (page_tokens i))"
proof (induction idxs arbitrary: st)
  case Nil
  then show ?case by simp
next
  case (Cons i rest)
  from Cons.prems obtain rows req where tt: "try_tokens w (page_tokens i) = Inr (rows, req)"
    by (auto split: sum.splits)
  have req: "set req \<subseteq> set (page_tokens i)"
    using try_tokens_requested[OF tt] .
  show ?case
  proof (cases "rows = []")
    case True
    let ?st1 = "st\<lparr>empty_streak := empty_streak st + 1,
                    requested_tokens := requested_tokens st @ req\<rparr>"
    show ?thesis
    proof (cases "0 < i \<and> 1 \<le> empty_streak st")
      case True
      with \<open>rows = []\<close> tt have "paginate rt w (i # rest) st = Inr ?st1"
        by (intro paginate_empty_stop) auto
      with Cons.prems have "st' = ?st1" by (simp only: sum.inject)
      with req show ?thesis by auto
    next
      case False
      then have "i = 0 \<or> empty_streak st = 0" by auto
      with \<open>rows = []\<close> tt have "paginate rt w (i # rest) st = paginate rt w rest ?st1"
        by (intro paginate_empty_continue) auto
      with Cons.prems have "paginate rt w rest ?st1 = Inr st'" by (simp only:)
      from Cons.IH[OF this] req show ?thesis by auto
    qed
  next
    case False
    let ?st1 = "\<lparr>collected = collected st @ keep_unseen (raw_key rt) (seen_keys st) rows,
              seen_keys = seen_keys st \<union> raw_key rt ` set rows,
              empty_streak = 0,
              requested_tokens = requested_tokens st @ req\<rparr>"
    show ?thesis
    proof (cases "0 < i \<and> raw_key rt ` set rows \<subseteq> seen_keys st")
      case True
      with False tt
      have "paginate rt w (i # rest) st
              = Inr \<lparr>collected = collected st, seen_keys = seen_keys st, empty_streak = 0,
                    requested_tokens = requested_tokens st @ req\<rparr>"
        by (intro paginate_rows_stop) auto
      with Cons.prems
      have "st' = \<lparr>collected = collected st, seen_keys = seen_keys st, empty_streak = 0,
                requested_tokens = requested_tokens st @ req\<rparr>"
        by (simp only: sum.inject)
      with req show ?thesis by auto
    next
      case c: False
      then have "i = 0 \<or> \<not> raw_key rt ` set rows \<subseteq> seen_keys st" by auto
      with False tt have "paginate rt w (i # rest) st = paginate rt w rest ?st1"
        by (intro paginate_rows_continue) auto
      with Cons.prems have "paginate rt w rest ?st1 = Inr st'" by (simp only:)
      from Cons.IH[OF this] req show ?thesis by auto
    qed
  qed
qed

lemma paginate_three_pages_then_two_empty:
  assumes cap: "5 < max_pages"
    and root: "root_failure w = None"
    and p0: "try_tokens w (page_tokens 0) = Inr (p0, t0)" "p0 \<noteq> []"
    and p1: "try_tokens w (page_tokens 1) = Inr (p1, t1)"
            "\<not> raw_key rt ` set p1 \<subseteq> raw_key rt ` set p0"
    and p2: "try_tokens w (page_tokens 2) = Inr (p2, t2)"
            "\<not> raw_key rt ` set p2 \<subseteq> raw_key rt ` set (p0 @ p1)"
    and p3: "try_tokens w (page_tokens 3) = Inr ([], t3)"
    and p4: "try_tokens w (page_tokens 4) = Inr ([], t4)"
  shows "scrape_run rt w max_pages =
           Inr \<lparr>collected = keep_unseen (raw_key rt) {} (p0 @ p1 @ p2),
                seen_keys = raw_key rt ` set (p0 @ p1 @ p2),
                empty_streak = 2,
                requested_tokens = t0 @ t1 @ t2 @ t3 @ t4\<rparr>"
proof -
  let ?k = "raw_key rt"
  define n where "n = nat max_pages"
  have n: "5 < n" using cap by (simp add: n_def)
  have idx: "[0..<n] = 0 # 1 # 2 # 3 # 4 # [5..<n]"
  proof -
    have "[0..<n] = [0..<5] @ [5..<n]"
      using n upt_add_eq_append[of 0 5 "n - 5"] by simp
    moreover have "[0..<5] = [0, 1, 2, 3, 4::nat]"
      by (simp add: upt_rec)
    ultimately show ?thesis by simp
  qed
  have ne1: "p1 \<noteq> []" and ne2: "p2 \<noteq> []" using p1(2) p2(2) by auto
  let ?s0 = "initial_scrape_state"
  let ?s1 = "\<lparr>collected = keep_unseen ?k {} p0, seen_keys = ?k ` set p0, empty_streak = 0,
              requested_tokens = t0\<rparr>"
  let ?s2 = "\<lparr>collected = keep_unseen ?k {} p0 @ keep_unseen ?k (?k ` set p0) p1,
              seen_keys = ?k ` set p0 \<union> ?k ` set p1, empty_streak = 0,
              requested_tokens = t0 @ t1\<rparr>"
  let ?s3 = "\<lparr>collected = keep_unseen ?k {} p0 @ keep_unseen ?k (?k ` set p0) p1
                  @ keep_unseen ?k (?k ` set p0 \<union> ?k ` set p1) p2,
              seen_keys = ?k ` set p0 \<union> ?k ` set p1 \<union> ?k ` set p2, empty_streak = 0,
              requested_tokens = t0 @ t1 @ t2\<rparr>"
  have "paginate rt w [0..<n] ?s0 = paginate rt w (1 # 2 # 3 # 4 # [5..<n]) ?s1"
    unfolding idx using paginate_rows_continue[OF p0(1) p0(2), of rt ?s0]
    by (simp add: initial_scrape_state_def)
  also have "\<dots> = paginate rt w (2 # 3 # 4 # [5..<n]) ?s2"
    using paginate_rows_continue[OF p1(1) ne1, of rt ?s1] p1(2) by simp
  also have "\<dots> = paginate rt w (3 # 4 # [5..<n]) ?s3"
    using paginate_rows_continue[OF p2(1) ne2, of rt ?s2] p2(2) by (simp add: image_Un)
  also have "\<dots> = paginate rt w (4 # [5..<n])
                    (?s3\<lparr>empty_streak := 1, requested_tokens := t0 @ t1 @ t2 @ t3\<rparr>)"
    using paginate_empty_continue[OF p3, of ?s3 rt] by simp
  also have "\<dots> = Inr (?s3\<lparr>empty_streak := 2, requested_tokens := t0 @ t1 @ t2 @ t3 @ t4\<rparr>)"
    using paginate_empty_stop[OF p4, of "?s3\<lparr>empty_streak := 1, requested_tokens := t0 @ t1 @ t2 @ t3\<rparr>" rt]
    by simp
  finally have "paginate rt w [0..<n] ?s0
      = Inr (?s3\<lparr>empty_streak := 2, requested_tokens := t0 @ t1 @ t2 @ t3 @ t4\<rparr>)" .
  moreover have "keep_unseen ?k {} p0 @ keep_unseen ?k (?k ` set p0) p1
                  @ keep_unseen ?k (?k ` set p0 \<union> ?k ` set p1) p2
               = keep_unseen ?k {} (p0 @ p1 @ p2)"
    by (simp add: keep_unseen_append)
  ultimately show ?thesis
    using root by (simp add: scrape_run_def n_def image_Un Un_assoc)
qed

lemma page_tokens_5_fresh:
  assumes "set t0 \<subseteq> set (page_tokens 0)" "set t1 \<subseteq> set (page_tokens 1)"
    "set t2 \<subseteq> set (page_tokens 2)" "set t3 \<subseteq> set (page_tokens 3)"
    "set t4 \<subseteq> set (page_tokens 4)"
  shows "set (page_tokens 5) \<inter> set (t0 @ t1 @ t2 @ t3 @ t4) = {}"
proof -
  have "set (page_tokens 5) \<inter> (set (page_tokens 0) \<union> set (page_tokens 1) \<union> set (page_tokens 2)
          \<union> set (page_tokens 3) \<union> set (page_tokens 4)) = {}"
    unfolding page_tokens_eval by (simp add: u_def)
  with assms show ?thesis by auto
qed

text \<open>
  Claim C5, as the code has it. A page index whose tokens extract no row adds one to the
  empty streak; it stops the pagination only when the streak was already at least one and
  the index is not 0, so a single page without rows never stops it. A page index with rows
  resets the streak to 0 and appends the rows whose identity is new; when none is new and
  the index is not 0, the pagination stops at once. Only tokens of page indexes below the
  cap are requested. In particular, when pages 0, 1 and 2 each bring a row with a new
  identity and pages 3 and 4 bring no row, the run ends with exactly the rows of pages 0
  to 2, without duplicates, and no token of page 5 is requested (cap above 5).
\<close>

theorem pagination_stopping:
  "(try_tokens w (page_tokens i) = Inr ([], req) \<and> (i = 0 \<or> empty_streak st = 0)
      \<longrightarrow> paginate rt w (i # rest) st =
            paginate rt w rest (st\<lparr>empty_streak := empty_streak st + 1,
                                    requested_tokens := requested_tokens st @ req\<rparr>))
   \<and> (try_tokens w (page_tokens i) = Inr ([], req) \<and> 0 < i \<and> 1 \<le> empty_streak st
      \<longrightarrow> paginate rt w (i # rest) st =
            Inr (st\<lparr>empty_streak := empty_streak st + 1,
                     requested_tokens := requested_tokens st @ req\<rparr>))
   \<and> (try_tokens w (page_tokens i) = Inr (rows, req) \<and> rows \<noteq> []
       \<and> (i = 0 \<or> \<not> raw_key rt ` set rows \<subseteq> seen_keys st)
      \<longrightarrow> paginate rt w (i # rest) st =
            paginate rt w rest
              \<lparr>collected = collected st @ keep_unseen (raw_key rt) (seen_keys st) rows,
               seen_keys = seen_keys st \<union> raw_key rt ` set rows,
               empty_streak = 0,
               requested_tokens = requested_tokens st @ req\<rparr>)
   \<and> (try_tokens w (page_tokens i) = Inr (rows, req) \<and> rows \<noteq> []
       \<and> 0 < i \<and> raw_key rt ` set rows \<subseteq> seen_keys st
      \<longrightarrow> paginate rt w (i # rest) st =
            Inr \<lparr>collected = collected st, seen_keys = seen_keys st, empty_streak = 0,
                 requested_tokens = requested_tokens st @ req\<rparr>)
   \<and> (scrape_run rt w max_pages = Inr st'
      \<longrightarrow> set (requested_tokens st') \<subseteq> (\<Union>j\<in>{..<nat max_pages}. set (page_tokens j)))
   \<and> (5 < max_pages \<and> root_failure w = None
       \<and> try_tokens w (page_tokens 0) = Inr (p0, t0) \<and> p0 \<noteq> []
       \<and> try_tokens w (page_tokens 1) = Inr (p1, t1)
       \<and> \<not> raw_key rt ` set p1 \<subseteq> raw_key rt ` set p0
       \<and> try_tokens w (page_tokens 2) = Inr (p2, t2)
       \<and> \<not> raw_key rt ` set p2 \<subseteq> raw_key rt ` set (p0 @ p1)
       \<and> try_tokens w (page_tokens 3) = Inr ([], t3)
       \<and> try_tokens w (page_tokens 4) = Inr ([], t4)
      \<longrightarrow> scrape_run rt w max_pages =
            Inr \<lparr>collected = keep_unseen (raw_key rt) {} (p0 @ p1 @ p2),
                 seen_keys = raw_key rt ` set (p0 @ p1 @ p2),
                 empty_streak = 2,
                 requested_tokens = t0 @ t1 @ t2 @ t3 @ t4\<rparr>
          \<and> scrape_comments_paginated rt w max_pages
              = Inr (keep_unseen (raw_key rt) {} (p0 @ p1 @ p2))
          \<and> set (page_tokens 5) \<inter> set (t0 @ t1 @ t2 @ t3 @ t4) = {})"
proof (intro conjI impI)
  assume "try_tokens w (page_tokens i) = Inr ([], req) \<and> (i = 0 \<or> empty_streak st = 0)"
  then show "paginate rt w (i # rest) st =
            paginate rt w rest (st\<lparr>empty_streak := empty_streak st + 1,
                                    requested_tokens := requested_tokens st @ req\<rparr>)"
    by (intro paginate_empty_continue) auto
next
  assume "try_tokens w (page_tokens i) = Inr ([], req) \<and> 0 < i \<and> 1 \<le> empty_streak st"
  then show "paginate rt w (i # rest) st =
            Inr (st\<lparr>empty_streak := empty_streak st + 1,
                     requested_tokens := requested_tokens st @ req\<rparr>)"
    by (intro paginate_empty_stop) auto
next
  assume "try_tokens w (page_tokens i) = Inr (rows, req) \<and> rows \<noteq> []
       \<and> (i = 0 \<or> \<not> raw_key rt ` set rows \<subseteq> seen_keys st)"
  then show "paginate rt w (i # rest) st =
            paginate rt w rest
              \<lparr>collected = collected st @ keep_unseen (raw_key rt) (seen_keys st) rows,
               seen_keys = seen_keys st \<union> raw_key rt ` set rows,
               empty_streak = 0,
               requested_tokens = requested_tokens st @ req\<rparr>"
    by (intro paginate_rows_continue) auto
next
  assume "try_tokens w (page_tokens i) = Inr (rows, req) \<and> rows \<noteq> []
       \<and> 0 < i \<and> raw_key rt ` set rows \<subseteq> seen_keys st"
  then show "paginate rt w (i # rest) st =
            Inr \<lparr>collected = collected st, seen_keys = seen_keys st, empty_streak = 0,
                 requested_tokens = requested_tokens st @ req\<rparr>"
    by (intro paginate_rows_stop) auto
next
  assume a: "scrape_run rt w max_pages = Inr st'"
  then have "paginate rt w [0..<nat max_pages] initial_scrape_state = Inr st'"
    by (auto simp: scrape_run_def split: option.splits)
  from paginate_requested[OF this]
  show "set (requested_tokens st') \<subseteq> (\<Union>j\<in>{..<nat max_pages}. set (page_tokens j))"
    by (simp add: initial_scrape_state_def atLeast0LessThan)
next
  assume h: "5 < max_pages \<and> root_failure w = None
       \<and> try_tokens w (page_tokens 0) = Inr (p0, t0) \<and> p0 \<noteq> []
       \<and> try_tokens w (page_tokens 1) = Inr (p1, t1)
       \<and> \<not> raw_key rt ` set p1 \<subseteq> raw_key rt ` set p0
       \<and> try_tokens w (page_tokens 2) = Inr (p2, t2)
       \<and> \<not> raw_key rt ` set p2 \<subseteq> raw_key rt ` set (p0 @ p1)
       \<and> try_tokens w (page_tokens 3) = Inr ([], t3)
       \<and> try_tokens w (page_tokens 4) = Inr ([], t4)"
  then have run: "scrape_run rt w max_pages =
            Inr \<lparr>collected = keep_unseen (raw_key rt) {} (p0 @ p1 @ p2),
                 seen_keys = raw_key rt ` set (p0 @ p1 @ p2),
                 empty_streak = 2,
                 requested_tokens = t0 @ t1 @ t2 @ t3 @ t4\<rparr>"
    by (intro paginate_three_pages_then_two_empty) blast+
  then show "scrape_run rt w max_pages =
            Inr \<lparr>collected = keep_unseen (raw_key rt) {} (p0 @ p1 @ p2),
                 seen_keys = raw_key rt ` set (p0 @ p1 @ p2),
                 empty_streak = 2,
                 requested_tokens = t0 @ t1 @ t2 @ t3 @ t4\<rparr>" .
  from run show "scrape_comments_paginated rt w max_pages
              = Inr (keep_unseen (raw_key rt) {} (p0 @ p1 @ p2))"
    by (simp add: scrape_comments_paginated_def)
  from h show "set (page_tokens 5) \<inter> set (t0 @ t1 @ t2 @ t3 @ t4) = {}"
    by (intro page_tokens_5_fresh try_tokens_requested) blast+
qed

lemmas site_eval = example_site_def repeating_site_def example_raw_def page_tokens_eval u_def

lemma example_site_pages:
  "try_tokens example_site (page_tokens 0)
     = Inr ([example_raw ''Asha'' ''1 day ago'' ''Good idea''], [u ''0''])"
  "try_tokens example_site (page_tokens 1)
     = Inr ([example_raw ''Ravi'' ''2 days ago'' ''Very slow site''], [u ''0,1'', u ''1''])"
  "try_tokens example_site (page_tokens 2)
     = Inr ([example_raw ''asha'' ''3 days ago'' ''good  idea'',
             example_raw ''Mina'' ''3 days ago'' ''Thanks''], [u ''0,2''])"
  "try_tokens example_site (page_tokens 3) = Inr ([], [u ''0,3'', u ''3''])"
  "try_tokens example_site (page_tokens 4) = Inr ([], [u ''0,4'', u ''4''])"
  unfolding page_tokens_eval by (simp_all add: example_site_def example_raw_def u_def)

lemma repeating_site_pages:
  "try_tokens repeating_site (page_tokens 0)
     = Inr ([example_raw ''Asha'' ''1 day ago'' ''Good idea''], [u ''0''])"
  "try_tokens repeating_site (page_tokens 1)
     = Inr ([example_raw ''Asha'' ''2 days ago'' ''Good idea''], [u ''0,1''])"
  "try_tokens repeating_site (page_tokens 2)
     = Inr ([example_raw ''Mina'' ''3 days ago'' ''Thanks''], [u ''0,2''])"
  unfolding page_tokens_eval by (simp_all add: repeating_site_def example_raw_def u_def)

lemmas raw_key_eval = raw_key_def get_or_def example_raw_def make_comment_key_def key_string_def
  text_hash_def encode_utf8_ignore_def utf8_char_def plain_runtime_def

lemma example_keys:
  "raw_key plain_runtime (example_raw ''asha'' ''3 days ago'' ''good  idea'')
     = raw_key plain_runtime (example_raw ''Asha'' ''1 day ago'' ''Good idea'')"
  "raw_key plain_runtime (example_raw ''Ravi'' ''2 days ago'' ''Very slow site'')
     \<noteq> raw_key plain_runtime (example_raw ''Asha'' ''1 day ago'' ''Good idea'')"
  "raw_key plain_runtime (example_raw ''Mina'' ''3 days ago'' ''Thanks'')
     \<noteq> raw_key plain_runtime (example_raw ''Asha'' ''1 day ago'' ''Good idea'')"
  "raw_key plain_runtime (example_raw ''Mina'' ''3 days ago'' ''Thanks'')
     \<noteq> raw_key plain_runtime (example_raw ''Ravi'' ''2 days ago'' ''Very slow site'')"
  "raw_key plain_runtime (example_raw ''Asha'' ''2 days ago'' ''Good idea'')
     = raw_key plain_runtime (example_raw ''Asha'' ''1 day ago'' ''Good idea'')"
  by (simp_all add: raw_key_eval str_eval)

theorem pagination_stopping_witness:
  "try_tokens example_site (page_tokens 3) = Inr ([], [u ''0,3'', u ''3''])
   \<and> empty_streak initial_scrape_state = 0
   \<and> paginate plain_runtime example_site [3, 4] initial_scrape_state
       = Inr (initial_scrape_state\<lparr>empty_streak := 2,
                requested_tokens := [u ''0,3'', u ''3'', u ''0,4'', u ''4'']\<rparr>)
   \<and> try_tokens example_site (page_tokens 0)
       = Inr ([example_raw ''Asha'' ''1 day ago'' ''Good idea''], [u ''0''])
   \<and> paginate plain_runtime example_site [0] initial_scrape_state
       = Inr \<lparr>collected = [example_raw ''Asha'' ''1 day ago'' ''Good idea''],
              seen_keys = {raw_key plain_runtime (example_raw ''Asha'' ''1 day ago'' ''Good idea'')},
              empty_streak = 0, requested_tokens = [u ''0'']\<rparr>
   \<and> (5::int) < 50
   \<and> root_failure example_site = None
   \<and> scrape_run plain_runtime example_site 50
       = Inr \<lparr>collected = [example_raw ''Asha'' ''1 day ago'' ''Good idea'',
                           example_raw ''Ravi'' ''2 days ago'' ''Very slow site'',
                           example_raw ''Mina'' ''3 days ago'' ''Thanks''],
              seen_keys = raw_key plain_runtime `
                 set ([example_raw ''Asha'' ''1 day ago'' ''Good idea'']
                      @ [example_raw ''Ravi'' ''2 days ago'' ''Very slow site'']
                      @ [example_raw ''asha'' ''3 days ago'' ''good  idea'',
                         example_raw ''Mina'' ''3 days ago'' ''Thanks'']),
              empty_streak = 2,
              requested_tokens = [u ''0'', u ''0,1'', u ''1'', u ''0,2'', u ''0,3'', u ''3'',
                                  u ''0,4'', u ''4'']\<rparr>
   \<and> scrape_comments_paginated plain_runtime example_site 50
       = Inr [example_raw ''Asha'' ''1 day ago'' ''Good idea'',
              example_raw ''Ravi'' ''2 days ago'' ''Very slow site'',
              example_raw ''Mina'' ''3 days ago'' ''Thanks'']
   \<and> u ''0,5'' \<notin> set [u ''0'', u ''0,1'', u ''1'', u ''0,2'', u ''0,3'', u ''3'', u ''0,4'', u ''4'']
   \<and> u ''5'' \<notin> set [u ''0'', u ''0,1'', u ''1'', u ''0,2'', u ''0,3'', u ''3'', u ''0,4'', u ''4'']
   \<and> try_tokens repeating_site (page_tokens 1)
       = Inr ([example_raw ''Asha'' ''2 days ago'' ''Good idea''], [u ''0,1''])
   \<and> paginate plain_runtime repeating_site [1, 2]
         \<lparr>collected = [example_raw ''Asha'' ''1 day ago'' ''Good idea''],
          seen_keys = {raw_key plain_runtime (example_raw ''Asha'' ''1 day ago'' ''Good idea'')},
          empty_streak = 0, requested_tokens = [u ''0'']\<rparr>
       = Inr \<lparr>collected = [example_raw ''Asha'' ''1 day ago'' ''Good idea''],
              seen_keys = {raw_key plain_runtime (example_raw ''Asha'' ''1 day ago'' ''Good idea'')},
              empty_streak = 0, requested_tokens = [u ''0'', u ''0,1'']\<rparr>"
proof -
  let ?a = "example_raw ''Asha'' ''1 day ago'' ''Good idea''"
  let ?k = "raw_key plain_runtime"
  let ?s1 = "initial_scrape_state\<lparr>empty_streak := 1, requested_tokens := [u ''0,3'', u ''3'']\<rparr>"
  have e0: "empty_streak initial_scrape_state = 0"
    by (simp add: initial_scrape_state_def)
  have c1: "paginate plain_runtime example_site [3, 4] initial_scrape_state
          = paginate plain_runtime example_site [4] ?s1"
    using pagination_stopping[where w = example_site and i = 3 and req = "[u ''0,3'', u ''3'']"
            and st = initial_scrape_state and rt = plain_runtime and rest = "[4]"] example_site_pages(4) e0
    by (simp add: initial_scrape_state_def)
  have c2: "paginate plain_runtime example_site [4] ?s1
          = Inr (initial_scrape_state\<lparr>empty_streak := 2,
                requested_tokens := [u ''0,3'', u ''3'', u ''0,4'', u ''4'']\<rparr>)"
    using pagination_stopping[where w = example_site and i = 4 and req = "[u ''0,4'', u ''4'']"
            and st = ?s1 and rt = plain_runtime and rest = "[]"]
      example_site_pages(5)
    by (simp add: initial_scrape_state_def)
  have c3: "paginate plain_runtime example_site [0] initial_scrape_state
       = Inr \<lparr>collected = [?a], seen_keys = {?k ?a}, empty_streak = 0, requested_tokens = [u ''0'']\<rparr>"
    using pagination_stopping[where w = example_site and i = 0 and st = initial_scrape_state
            and rt = plain_runtime and rest = "[]" and rows = "[?a]" and req = "[u ''0'']"]
      example_site_pages(1)
    by (simp add: initial_scrape_state_def)
  have c4: "paginate plain_runtime repeating_site [1, 2]
         \<lparr>collected = [?a], seen_keys = {?k ?a}, empty_streak = 0, requested_tokens = [u ''0'']\<rparr>
       = Inr \<lparr>collected = [?a], seen_keys = {?k ?a}, empty_streak = 0,
              requested_tokens = [u ''0'', u ''0,1'']\<rparr>"
    using pagination_stopping[where w = repeating_site and i = 1
            and st = "\<lparr>collected = [?a], seen_keys = {?k ?a}, empty_streak = 0, requested_tokens = [u ''0'']\<rparr>"
            and rt = plain_runtime and rest = "[2]"
            and rows = "[example_raw ''Asha'' ''2 days ago'' ''Good idea'']" and req = "[u ''0,1'']"]
      repeating_site_pages(2) example_keys(5)
    by simp
  have root: "root_failure example_site = None"
    by (simp add: example_site_def)
  have n1: "\<not> ?k ` set [example_raw ''Ravi'' ''2 days ago'' ''Very slow site''] \<subseteq> ?k ` set [?a]"
    using example_keys(2) by simp
  have n2: "\<not> ?k ` set [example_raw ''asha'' ''3 days ago'' ''good  idea'',
                         example_raw ''Mina'' ''3 days ago'' ''Thanks'']
             \<subseteq> ?k ` set ([?a] @ [example_raw ''Ravi'' ''2 days ago'' ''Very slow site''])"
    using example_keys(3,4) by simp
  have ku: "keep_unseen ?k {} ([?a] @ [example_raw ''Ravi'' ''2 days ago'' ''Very slow site'']
                      @ [example_raw ''asha'' ''3 days ago'' ''good  idea'',
                         example_raw ''Mina'' ''3 days ago'' ''Thanks''])
           = [?a, example_raw ''Ravi'' ''2 days ago'' ''Very slow site'',
              example_raw ''Mina'' ''3 days ago'' ''Thanks'']"
    using example_keys by simp
  have hyp: "5 < (50::int) \<and> root_failure example_site = None
       \<and> try_tokens example_site (page_tokens 0) = Inr ([?a], [u ''0'']) \<and> [?a] \<noteq> []
       \<and> try_tokens example_site (page_tokens 1)
           = Inr ([example_raw ''Ravi'' ''2 days ago'' ''Very slow site''], [u ''0,1'', u ''1''])
       \<and> \<not> ?k ` set [example_raw ''Ravi'' ''2 days ago'' ''Very slow site''] \<subseteq> ?k ` set [?a]
       \<and> try_tokens example_site (page_tokens 2)
           = Inr ([example_raw ''asha'' ''3 days ago'' ''good  idea'',
                   example_raw ''Mina'' ''3 days ago'' ''Thanks''], [u ''0,2''])
       \<and> \<not> ?k ` set [example_raw ''asha'' ''3 days ago'' ''good  idea'',
                       example_raw ''Mina'' ''3 days ago'' ''Thanks'']
             \<subseteq> ?k ` set ([?a] @ [example_raw ''Ravi'' ''2 days ago'' ''Very slow site''])
       \<and> try_tokens example_site (page_tokens 3) = Inr ([], [u ''0,3'', u ''3''])
       \<and> try_tokens example_site (page_tokens 4) = Inr ([], [u ''0,4'', u ''4''])"
    using example_site_pages root n1 n2 by (intro conjI) simp_all
  note last = pagination_stopping[where w = example_site and rt = plain_runtime and max_pages = 50
            and ?p0.0 = "[?a]" and ?t0.0 = "[u ''0'']"
            and ?p1.0 = "[example_raw ''Ravi'' ''2 days ago'' ''Very slow site'']"
            and ?t1.0 = "[u ''0,1'', u ''1'']"
            and ?p2.0 = "[example_raw ''asha'' ''3 days ago'' ''good  idea'', example_raw ''Mina'' ''3 days ago'' ''Thanks'']"
            and ?t2.0 = "[u ''0,2'']" and ?t3.0 = "[u ''0,3'', u ''3'']" and ?t4.0 = "[u ''0,4'', u ''4'']",
            THEN conjunct2, THEN conjunct2, THEN conjunct2, THEN conjunct2, THEN conjunct2]
  have sc: "scrape_run plain_runtime example_site 50
       = Inr \<lparr>collected = keep_unseen ?k {} ([?a] @ [example_raw ''Ravi'' ''2 days ago'' ''Very slow site'']
                      @ [example_raw ''asha'' ''3 days ago'' ''good  idea'',
                         example_raw ''Mina'' ''3 days ago'' ''Thanks'']),
              seen_keys = ?k ` set ([?a] @ [example_raw ''Ravi'' ''2 days ago'' ''Very slow site'']
                      @ [example_raw ''asha'' ''3 days ago'' ''good  idea'',
                         example_raw ''Mina'' ''3 days ago'' ''Thanks'']),
              empty_streak = 2,
              requested_tokens = [u ''0''] @ [u ''0,1'', u ''1''] @ [u ''0,2''] @ [u ''0,3'', u ''3'']
                                  @ [u ''0,4'', u ''4'']\<rparr>
     \<and> scrape_comments_paginated plain_runtime example_site 50
       = Inr (keep_unseen ?k {} ([?a] @ [example_raw ''Ravi'' ''2 days ago'' ''Very slow site'']
                      @ [example_raw ''asha'' ''3 days ago'' ''good  idea'',
                         example_raw ''Mina'' ''3 days ago'' ''Thanks'']))"
    using last[THEN mp, OF hyp] by (intro conjI) (erule conjE, assumption, (erule conjE)+, assumption)
  have fresh: "u ''0,5'' \<notin> set [u ''0'', u ''0,1'', u ''1'', u ''0,2'', u ''0,3'', u ''3'', u ''0,4'', u ''4'']"
    "u ''5'' \<notin> set [u ''0'', u ''0,1'', u ''1'', u ''0,2'', u ''0,3'', u ''3'', u ''0,4'', u ''4'']"
    by (simp_all add: u_def)
  from sc have sc1: "scrape_run plain_runtime example_site 50
       = Inr \<lparr>collected = [?a, example_raw ''Ravi'' ''2 days ago'' ''Very slow site'',
                           example_raw ''Mina'' ''3 days ago'' ''Thanks''],
              seen_keys = ?k ` set ([?a] @ [example_raw ''Ravi'' ''2 days ago'' ''Very slow site'']
                      @ [example_raw ''asha'' ''3 days ago'' ''good  idea'',
                         example_raw ''Mina'' ''3 days ago'' ''Thanks'']),
              empty_streak = 2,
              requested_tokens = [u ''0'', u ''0,1'', u ''1'', u ''0,2'', u ''0,3'', u ''3'',
                                  u ''0,4'', u ''4'']\<rparr>"
    and sc2: "scrape_comments_paginated plain_runtime example_site 50
       = Inr [?a, example_raw ''Ravi'' ''2 days ago'' ''Very slow site'',
              example_raw ''Mina'' ''3 days ago'' ''Thanks'']"
    unfolding ku by simp_all
  have five: "(5::int) < 50" by simp
  from example_site_pages(4) e0 c1 c2 have c12: "paginate plain_runtime example_site [3, 4] initial_scrape_state
       = Inr (initial_scrape_state\<lparr>empty_streak := 2,
                requested_tokens := [u ''0,3'', u ''3'', u ''0,4'', u ''4'']\<rparr>)"
    by simp
  from example_site_pages(4) e0 c12 example_site_pages(1) c3 five root sc1 sc2 fresh
    repeating_site_pages(2) c4
  show ?thesis by (intro conjI)
qed

text \<open>
  On \<open>repeating_site\<close> page 1 has a row, and no new one: the streak stays 0 and the
  pagination stops after this one page, although page 2 has a new row and the cap is 50.
\<close>

theorem pagination_stopping_counterexample:
  "try_tokens repeating_site (page_tokens 1)
       = Inr ([example_raw ''Asha'' ''2 days ago'' ''Good idea''], [u ''0,1''])
   \<and> raw_key plain_runtime (example_raw ''Asha'' ''2 days ago'' ''Good idea'')
       = raw_key plain_runtime (example_raw ''Asha'' ''1 day ago'' ''Good idea'')
   \<and> try_tokens repeating_site (page_tokens 2)
       = Inr ([example_raw ''Mina'' ''3 days ago'' ''Thanks''], [u ''0,2''])
   \<and> raw_key plain_runtime (example_raw ''Mina'' ''3 days ago'' ''Thanks'')
       \<noteq> raw_key plain_runtime (example_raw ''Asha'' ''1 day ago'' ''Good idea'')
   \<and> scrape_run plain_runtime repeating_site 50
       = Inr \<lparr>collected = [example_raw ''Asha'' ''1 day ago'' ''Good idea''],
              seen_keys = {raw_key plain_runtime (example_raw ''Asha'' ''1 day ago'' ''Good idea'')},
              empty_streak = 0, requested_tokens = [u ''0'', u ''0,1'']\<rparr>"
proof -
  let ?a = "example_raw ''Asha'' ''1 day ago'' ''Good idea''"
  let ?k = "raw_key plain_runtime"
  have idx: "[0..<nat 50] = 0 # 1 # [2..<50]"
    by (simp add: upt_rec)
  let ?s1 = "\<lparr>collected = [?a], seen_keys = {?k ?a}, empty_streak = 0, requested_tokens = [u ''0'']\<rparr>"
  have "paginate plain_runtime repeating_site [0..<nat 50] initial_scrape_state
      = paginate plain_runtime repeating_site (1 # [2..<50]) ?s1"
    unfolding idx
    using paginate_rows_continue[OF repeating_site_pages(1), of plain_runtime initial_scrape_state "1 # [2..<50]"]
    by (simp add: initial_scrape_state_def)
  also have "\<dots> = Inr \<lparr>collected = [?a], seen_keys = {?k ?a}, empty_streak = 0,
                        requested_tokens = [u ''0'', u ''0,1'']\<rparr>"
    using paginate_rows_stop[OF repeating_site_pages(2), of plain_runtime ?s1 "[2..<50]"] example_keys(5)
    by simp
  finally have "scrape_run plain_runtime repeating_site 50
       = Inr \<lparr>collected = [?a], seen_keys = {?k ?a}, empty_streak = 0,
              requested_tokens = [u ''0'', u ''0,1'']\<rparr>"
    by (simp add: scrape_run_def repeating_site_def)
  with repeating_site_pages(2,3) example_keys(5,3) show ?thesis by (intro conjI)
qed

section \<open>Properties of the refresh\<close>

lemma in_progress_refresh_settle: "in_progress (refresh_settle outcome now state) = in_progress state"
  by (cases outcome) (simp_all add: refresh_settle_def refresh_success_def refresh_failure_def)

text \<open>
  Claim C7. A refresh that finds the source idle ends with the flag \<^verbatim>\<open>in_progress\<close>
  cleared, whatever the outcome of the scrape. When the scrape returns rows, they replace
  the comments, \<^verbatim>\<open>last_updated\<close> is the current time and \<^verbatim>\<open>last_error\<close> is cleared.
  When the scrape raises an exception, the comments and \<^verbatim>\<open>last_updated\<close> stay as they
  were and \<^verbatim>\<open>last_error\<close> is the message of the exception. A call that finds a refresh
  in progress returns at once and changes nothing. The \<^verbatim>\<open>finally\<close> block clears the flag
  after every outcome, also as the step of a thread among other threads.
\<close>

theorem refresh_returns_to_idle:
  "(\<not> in_progress state \<longrightarrow>
      refresh_site_state (Scraped merged_rows) now state
        = state\<lparr>comments := merged_rows, last_updated := Some now, last_error := None,
                in_progress := False\<rparr>
    \<and> refresh_site_state (Failed exc) now state
        = state\<lparr>last_error := Some (exn_message exc), in_progress := False\<rparr>
    \<and> comments (refresh_site_state (Failed exc) now state) = comments state
    \<and> last_updated (refresh_site_state (Failed exc) now state) = last_updated state
    \<and> \<not> in_progress (refresh_site_state outcome now state))
   \<and> (in_progress state \<longrightarrow> refresh_site_state outcome now state = state)
   \<and> \<not> in_progress (refresh_finally (refresh_settle outcome now state))
   \<and> \<not> in_progress (states (thread_finally sys k) (thread_source (threads sys ! k)))"
proof -
  have a: "refresh_site_state (Scraped merged_rows) now state
        = state\<lparr>comments := merged_rows, last_updated := Some now, last_error := None,
                in_progress := False\<rparr>"
    if "\<not> in_progress state"
    using that
    by (simp add: refresh_site_state_def refresh_begin_def refresh_settle_def refresh_success_def
          refresh_finally_def)
  have b: "refresh_site_state (Failed exc) now state
        = state\<lparr>last_error := Some (exn_message exc), in_progress := False\<rparr>"
    if "\<not> in_progress state"
    using that
    by (simp add: refresh_site_state_def refresh_begin_def refresh_settle_def refresh_failure_def
          refresh_finally_def)
  have c: "\<not> in_progress (refresh_site_state outcome now state)" if "\<not> in_progress state"
    using that by (simp add: refresh_site_state_def refresh_begin_def refresh_finally_def)
  have d: "refresh_site_state outcome now state = state" if "in_progress state"
    using that by (simp add: refresh_site_state_def refresh_begin_def)
  have e: "\<not> in_progress (refresh_finally (refresh_settle outcome now state))"
    by (simp add: refresh_finally_def)
  have f: "\<not> in_progress (states (thread_finally sys k) (thread_source (threads sys ! k)))"
    by (simp add: thread_finally_def Let_def refresh_finally_def)
  from a b c d e f show ?thesis by simp
qed

theorem refresh_returns_to_idle_witness:
  "\<not> in_progress example_state
   \<and> refresh_site_state (Scraped example_merged) 200 example_state
       = example_state\<lparr>comments := example_merged, last_updated := Some 200\<rparr>
   \<and> refresh_site_state (Failed (Exn (u ''timeout''))) 200 example_state
       = example_state\<lparr>last_error := Some (u ''timeout'')\<rparr>
   \<and> comments (refresh_site_state (Failed (Exn (u ''timeout''))) 200 example_state) = example_new
   \<and> last_updated (refresh_site_state (Failed (Exn (u ''timeout''))) 200 example_state) = Some 100
   \<and> \<not> in_progress (refresh_site_state Interrupted 200 example_state)
   \<and> in_progress (example_state\<lparr>in_progress := True\<rparr>)
   \<and> refresh_site_state (Scraped example_merged) 200 (example_state\<lparr>in_progress := True\<rparr>)
       = example_state\<lparr>in_progress := True\<rparr>"
proof -
  have h: "\<not> in_progress example_state" by (simp add: example_state_def)
  have h': "in_progress (example_state\<lparr>in_progress := True\<rparr>)" by simp
  note t1 = refresh_returns_to_idle[where state = example_state and merged_rows = example_merged
      and now = 200 and exc = "Exn (u ''timeout'')" and outcome = Interrupted
      and sys = initial_system and k = 0]
  note t2 = refresh_returns_to_idle[where state = "example_state\<lparr>in_progress := True\<rparr>"
      and merged_rows = example_merged
      and now = 200 and exc = "Exn (u ''timeout'')" and outcome = "Scraped example_merged"
      and sys = initial_system and k = 0]
  have a: "refresh_site_state (Scraped example_merged) 200 example_state
        = example_state\<lparr>comments := example_merged, last_updated := Some 200, last_error := None,
                in_progress := False\<rparr>"
    "refresh_site_state (Failed (Exn (u ''timeout''))) 200 example_state
        = example_state\<lparr>last_error := Some (exn_message (Exn (u ''timeout''))), in_progress := False\<rparr>"
    "comments (refresh_site_state (Failed (Exn (u ''timeout''))) 200 example_state) = comments example_state"
    "last_updated (refresh_site_state (Failed (Exn (u ''timeout''))) 200 example_state) = last_updated example_state"
    "\<not> in_progress (refresh_site_state Interrupted 200 example_state)"
    using t1 h by blast+
  have b: "refresh_site_state (Scraped example_merged) 200 (example_state\<lparr>in_progress := True\<rparr>)
       = example_state\<lparr>in_progress := True\<rparr>"
    using t2 h' by blast
  have a1: "refresh_site_state (Scraped example_merged) 200 example_state
       = example_state\<lparr>comments := example_merged, last_updated := Some 200\<rparr>"
    unfolding a(1) by (simp add: example_state_def)
  have a2: "refresh_site_state (Failed (Exn (u ''timeout''))) 200 example_state
       = example_state\<lparr>last_error := Some (u ''timeout'')\<rparr>"
    unfolding a(2) by (simp add: example_state_def exn_message_def)
  have a3: "comments (refresh_site_state (Failed (Exn (u ''timeout''))) 200 example_state) = example_new"
    unfolding a(3) by (simp add: example_state_def)
  have a4: "last_updated (refresh_site_state (Failed (Exn (u ''timeout''))) 200 example_state) = Some 100"
    unfolding a(4) by (simp add: example_state_def)
  from h a1 a2 a3 a4 a(5) h' b show ?thesis by (intro conjI)
qed

lemma filter_remove_nth:
  assumes "k < length xs" "\<not> P (xs ! k)"
  shows "filter P (take k xs @ drop (Suc k) xs) = filter P xs"
proof -
  have "filter P xs = filter P (take k xs @ xs ! k # drop (Suc k) xs)"
    using assms(1) by (simp add: id_take_nth_drop[symmetric])
  with assms(2) show ?thesis by simp
qed

lemma filter_update_nth:
  assumes "k < length xs"
  shows "filter P (xs[k := y])
           = filter P (take k xs) @ (if P y then [y] else []) @ filter P (drop (Suc k) xs)"
  using assms by (simp add: upd_conv_take_nth_drop)

lemma filter_split_nth:
  assumes "k < length xs"
  shows "filter P xs
           = filter P (take k xs) @ (if P (xs ! k) then [xs ! k] else []) @ filter P (drop (Suc k) xs)"
proof -
  have "filter P xs = filter P (take k xs @ xs ! k # drop (Suc k) xs)"
    using assms by (simp add: id_take_nth_drop[symmetric])
  then show ?thesis by simp
qed

lemma invariant_trigger:
  assumes "refresh_invariant sys"
    and "trigger_refresh_if_needed refresh_interval now sys source_id force = (started, sys')"
  shows "refresh_invariant sys'"
proof -
  have "states sys' = states sys" "\<And>s. refreshing sys' s = refreshing sys s"
    using assms(2)
    by (auto simp: trigger_refresh_if_needed_def Let_def refreshing_def split: if_splits)
  with assms(1) show ?thesis by (simp add: refresh_invariant_def)
qed

lemma invariant_begin:
  assumes inv: "refresh_invariant sys" and k: "k < length (threads sys)"
    and pos: "thread_position (threads sys ! k) = Spawned"
  shows "refresh_invariant (thread_begin sys k)"
proof -
  let ?t = "threads sys ! k"
  let ?src = "thread_source ?t"
  show ?thesis
  proof (cases "in_progress (states sys ?src)")
    case True
    then have sys': "thread_begin sys k = sys\<lparr>threads := take k (threads sys) @ drop (Suc k) (threads sys)\<rparr>"
      by (simp add: thread_begin_def Let_def refresh_begin_def)
    have "refreshing (thread_begin sys k) s = refreshing sys s" for s
      unfolding sys' refreshing_def
      using filter_remove_nth[of k "threads sys"
              "\<lambda>t. thread_source t = s \<and> thread_position t \<noteq> Spawned"] k pos
      by simp
    moreover have "states (thread_begin sys k) = states sys"
      unfolding sys' by simp
    ultimately show ?thesis using inv by (simp add: refresh_invariant_def)
  next
    case False
    let ?started = "(states sys ?src)\<lparr>in_progress := True, last_error := None\<rparr>"
    have sys': "thread_begin sys k =
        sys\<lparr>states := (states sys)(?src := ?started),
            threads := (threads sys)[k := ?t\<lparr>thread_position := Scraping\<rparr>]\<rparr>"
      using False by (simp add: thread_begin_def Let_def refresh_begin_def)
    have none: "refreshing sys ?src = []"
      using inv False by (simp add: refresh_invariant_def)
    have same: "refreshing (thread_begin sys k) s = refreshing sys s" if "s \<noteq> ?src" for s
      unfolding sys' refreshing_def using k pos that
      by (simp add: filter_update_nth filter_split_nth[of k "threads sys"])
    have here: "refreshing (thread_begin sys k) ?src = [?t\<lparr>thread_position := Scraping\<rparr>]"
    proof -
      have "refreshing sys ?src
          = filter (\<lambda>t. thread_source t = ?src \<and> thread_position t \<noteq> Spawned) (take k (threads sys))
            @ filter (\<lambda>t. thread_source t = ?src \<and> thread_position t \<noteq> Spawned) (drop (Suc k) (threads sys))"
        unfolding refreshing_def using k pos by (simp add: filter_split_nth[of k "threads sys"])
      with none have
        "filter (\<lambda>t. thread_source t = ?src \<and> thread_position t \<noteq> Spawned) (take k (threads sys)) = []"
        "filter (\<lambda>t. thread_source t = ?src \<and> thread_position t \<noteq> Spawned) (drop (Suc k) (threads sys)) = []"
        by simp_all
      then show ?thesis
        unfolding sys' refreshing_def using k by (simp add: filter_update_nth)
    qed
    show ?thesis
      unfolding refresh_invariant_def
    proof (intro allI)
      fix s
      show "length (refreshing (thread_begin sys k) s) \<le> 1
        \<and> (in_progress (states (thread_begin sys k) s) \<longleftrightarrow> refreshing (thread_begin sys k) s \<noteq> [])"
      proof (cases "s = ?src")
        case True
        with here show ?thesis by (simp add: sys')
      next
        case False
        with same[OF False] inv show ?thesis by (simp add: sys' refresh_invariant_def)
      qed
    qed
  qed
qed

lemma invariant_settle:
  assumes inv: "refresh_invariant sys" and k: "k < length (threads sys)"
    and pos: "thread_position (threads sys ! k) = Scraping"
  shows "refresh_invariant (thread_settle outcome now sys k)"
proof -
  let ?t = "threads sys ! k"
  let ?src = "thread_source ?t"
  have len: "length (refreshing (thread_settle outcome now sys k) s) = length (refreshing sys s)" for s
    unfolding thread_settle_def refreshing_def Let_def using k pos
    by (simp add: filter_update_nth filter_split_nth[of k "threads sys"])
  have flag: "in_progress (states (thread_settle outcome now sys k) s) = in_progress (states sys s)" for s
    by (simp add: thread_settle_def Let_def in_progress_refresh_settle)
  have "refreshing (thread_settle outcome now sys k) s \<noteq> [] \<longleftrightarrow> refreshing sys s \<noteq> []" for s
    using len[of s] by (metis length_0_conv)
  with len flag inv show ?thesis by (simp add: refresh_invariant_def)
qed

lemma invariant_finally:
  assumes inv: "refresh_invariant sys" and k: "k < length (threads sys)"
    and pos: "thread_position (threads sys ! k) = Finalizing"
  shows "refresh_invariant (thread_finally sys k)"
proof -
  let ?t = "threads sys ! k"
  let ?src = "thread_source ?t"
  let ?P = "\<lambda>s t. thread_source t = s \<and> thread_position t \<noteq> Spawned"
  have split: "refreshing sys s
      = filter (?P s) (take k (threads sys)) @ (if s = ?src then [?t] else [])
        @ filter (?P s) (drop (Suc k) (threads sys))" for s
    unfolding refreshing_def using k pos by (simp add: filter_split_nth[of k "threads sys"])
  have after: "refreshing (thread_finally sys k) s
      = filter (?P s) (take k (threads sys)) @ filter (?P s) (drop (Suc k) (threads sys))" for s
    by (simp add: thread_finally_def Let_def refreshing_def)
  have here: "refreshing (thread_finally sys k) ?src = []"
  proof -
    have "length (refreshing sys ?src) \<le> 1" using inv by (simp add: refresh_invariant_def)
    then have "filter (?P ?src) (take k (threads sys)) = []"
      "filter (?P ?src) (drop (Suc k) (threads sys)) = []"
      unfolding split[of ?src] by simp_all
    then show ?thesis unfolding after by simp
  qed
  show ?thesis
    unfolding refresh_invariant_def
  proof (intro allI)
    fix s
    show "length (refreshing (thread_finally sys k) s) \<le> 1
      \<and> (in_progress (states (thread_finally sys k) s) \<longleftrightarrow> refreshing (thread_finally sys k) s \<noteq> [])"
    proof (cases "s = ?src")
      case True
      with here show ?thesis by (simp add: thread_finally_def Let_def refresh_finally_def)
    next
      case False
      then have "refreshing (thread_finally sys k) s = refreshing sys s"
        unfolding after split[of s] by simp
      with False inv show ?thesis
        by (simp add: thread_finally_def Let_def refresh_invariant_def)
    qed
  qed
qed

lemma reachable_invariant: "reachable refresh_interval sys \<Longrightarrow> refresh_invariant sys"
proof (induction rule: reachable.induct)
  case (at_start sys)
  then show ?case by (simp add: refresh_invariant_def refreshing_def)
next
  case (after_trigger sys now source_id force started sys')
  then show ?case by (blast intro: invariant_trigger)
next
  case (after_begin sys k)
  then show ?case by (blast intro: invariant_begin)
next
  case (after_settle sys k outcome now)
  then show ?case by (blast intro: invariant_settle)
next
  case (after_finally sys k)
  then show ?case by (blast intro: invariant_finally)
qed

lemma two_triggers:
  assumes "\<not> in_progress (states sys source_id)"
  shows "trigger_refresh_if_needed refresh_interval now sys source_id True
           = (True, sys\<lparr>threads := threads sys
                @ [\<lparr>thread_source = source_id, thread_position = Spawned\<rparr>]\<rparr>)"
    and "fst (trigger_refresh_if_needed refresh_interval now'
               (snd (trigger_refresh_if_needed refresh_interval now sys source_id True))
               source_id True)"
  using assms by (simp_all add: trigger_refresh_if_needed_def Let_def)

text \<open>
  Claim C6, as the code has it. A trigger for a source whose flag \<^verbatim>\<open>in_progress\<close> is set
  returns \<open>False\<close> and leaves the system as it is, forced or not. A trigger never changes a
  state: the flag is set by the thread it starts, in the first block of
  \<^verbatim>\<open>refresh_site_state\<close>, and a thread that finds the flag set there returns at once. In
  every system that can be reached, a source has at most one thread inside a refresh, and
  its flag is set exactly when it has one. Two forced triggers for an idle source, the
  second before the thread of the first has taken its first step, both return \<open>True\<close>.
\<close>

theorem trigger_and_single_refresh:
  "(in_progress (states sys source_id)
      \<longrightarrow> trigger_refresh_if_needed refresh_interval now sys source_id force = (False, sys))
   \<and> states (snd (trigger_refresh_if_needed refresh_interval now sys source_id force)) = states sys
   \<and> (reachable refresh_interval sys
      \<longrightarrow> length (refreshing sys source_id) \<le> 1
        \<and> (in_progress (states sys source_id) \<longleftrightarrow> refreshing sys source_id \<noteq> []))
   \<and> (k < length (threads sys) \<and> in_progress (states sys (thread_source (threads sys ! k)))
      \<longrightarrow> thread_begin sys k = sys\<lparr>threads := take k (threads sys) @ drop (Suc k) (threads sys)\<rparr>)
   \<and> (\<not> in_progress (states sys source_id)
      \<longrightarrow> fst (trigger_refresh_if_needed refresh_interval now sys source_id True)
        \<and> fst (trigger_refresh_if_needed refresh_interval now'
                 (snd (trigger_refresh_if_needed refresh_interval now sys source_id True))
                 source_id True))"
proof (intro conjI impI)
  show "trigger_refresh_if_needed refresh_interval now sys source_id force = (False, sys)"
    if "in_progress (states sys source_id)"
    using that by (simp add: trigger_refresh_if_needed_def Let_def)
  show "states (snd (trigger_refresh_if_needed refresh_interval now sys source_id force)) = states sys"
    by (simp add: trigger_refresh_if_needed_def Let_def)
  show "length (refreshing sys source_id) \<le> 1" if "reachable refresh_interval sys"
    using reachable_invariant[OF that] by (simp add: refresh_invariant_def)
  show "in_progress (states sys source_id) \<longleftrightarrow> refreshing sys source_id \<noteq> []"
    if "reachable refresh_interval sys"
    using reachable_invariant[OF that] by (simp add: refresh_invariant_def)
  show "thread_begin sys k = sys\<lparr>threads := take k (threads sys) @ drop (Suc k) (threads sys)\<rparr>"
    if "k < length (threads sys) \<and> in_progress (states sys (thread_source (threads sys ! k)))"
    using that by (simp add: thread_begin_def Let_def refresh_begin_def)
  show "fst (trigger_refresh_if_needed refresh_interval now sys source_id True)"
    if "\<not> in_progress (states sys source_id)"
    using two_triggers(1)[OF that] by simp
  show "fst (trigger_refresh_if_needed refresh_interval now'
                 (snd (trigger_refresh_if_needed refresh_interval now sys source_id True))
                 source_id True)"
    if "\<not> in_progress (states sys source_id)"
    using two_triggers(2)[OF that] .
qed

lemma spawned_twice:
  "snd (trigger_refresh_if_needed 900 1 (snd (trigger_refresh_if_needed 900 0 initial_system (u ''site1'') True))
          (u ''site1'') True)
     = \<lparr>states = (\<lambda>source_id. example_state), threads = [site1_thread Spawned, site1_thread Spawned]\<rparr>"
  by (simp add: trigger_refresh_if_needed_def Let_def initial_system_def example_state_def
        site1_thread_def)

lemma busy_system_begin:
  "thread_begin \<lparr>states = (\<lambda>source_id. example_state),
                 threads = [site1_thread Spawned, site1_thread Spawned]\<rparr> 0 = busy_system"
  by (simp add: thread_begin_def Let_def refresh_begin_def busy_system_def example_state_def
        site1_thread_def)

lemma reachable_initial_system: "reachable 900 initial_system"
  by (rule reachable.at_start) (simp_all add: initial_system_def example_state_def)

lemma reachable_busy_system: "reachable 900 busy_system"
proof -
  let ?s1 = "snd (trigger_refresh_if_needed 900 0 initial_system (u ''site1'') True)"
  let ?s2 = "snd (trigger_refresh_if_needed 900 1 ?s1 (u ''site1'') True)"
  have "reachable 900 ?s1"
    by (rule reachable.after_trigger[OF reachable_initial_system, where now = 0
          and source_id = "u ''site1''" and force = True
          and started = "fst (trigger_refresh_if_needed 900 0 initial_system (u ''site1'') True)"])
       simp
  then have "reachable 900 ?s2"
    by (rule reachable.after_trigger[where now = 1 and source_id = "u ''site1''" and force = True
          and started = "fst (trigger_refresh_if_needed 900 1 ?s1 (u ''site1'') True)"])
       simp
  then have r: "reachable 900 \<lparr>states = (\<lambda>source_id. example_state),
                 threads = [site1_thread Spawned, site1_thread Spawned]\<rparr>"
    by (simp only: spawned_twice)
  have "reachable 900 (thread_begin \<lparr>states = (\<lambda>source_id. example_state),
                 threads = [site1_thread Spawned, site1_thread Spawned]\<rparr> 0)"
    by (rule reachable.after_begin[OF r]) (simp_all add: site1_thread_def)
  then show ?thesis by (simp only: busy_system_begin)
qed

theorem trigger_and_single_refresh_witness:
  "in_progress (states busy_system (u ''site1''))
   \<and> reachable 900 busy_system
   \<and> 1 < length (threads busy_system)
   \<and> in_progress (states busy_system (thread_source (threads busy_system ! 1)))
   \<and> trigger_refresh_if_needed 900 2 busy_system (u ''site1'') True = (False, busy_system)
   \<and> trigger_refresh_if_needed 900 2 busy_system (u ''site1'') False = (False, busy_system)
   \<and> length (refreshing busy_system (u ''site1'')) \<le> 1
   \<and> refreshing busy_system (u ''site1'') \<noteq> []
   \<and> thread_begin busy_system 1 = busy_system\<lparr>threads := [site1_thread Scraping]\<rparr>
   \<and> \<not> in_progress (states initial_system (u ''site1''))
   \<and> fst (trigger_refresh_if_needed 900 0 initial_system (u ''site1'') True)
   \<and> fst (trigger_refresh_if_needed 900 1
            (snd (trigger_refresh_if_needed 900 0 initial_system (u ''site1'') True))
            (u ''site1'') True)"
proof -
  have h1: "in_progress (states busy_system (u ''site1''))"
    by (simp add: busy_system_def)
  have h2: "1 < length (threads busy_system)"
    by (simp add: busy_system_def)
  have h3: "in_progress (states busy_system (thread_source (threads busy_system ! 1)))"
    by (simp add: busy_system_def site1_thread_def)
  have h4: "\<not> in_progress (states initial_system (u ''site1''))"
    by (simp add: initial_system_def example_state_def)
  have tk: "take 1 (threads busy_system) @ drop (Suc 1) (threads busy_system) = [site1_thread Scraping]"
    by (simp add: busy_system_def)
  note t1 = trigger_and_single_refresh[where sys = busy_system and source_id = "u ''site1''"
      and refresh_interval = 900 and now = 2 and force = True and k = 1 and now' = 3]
  note t2 = trigger_and_single_refresh[where sys = busy_system and source_id = "u ''site1''"
      and refresh_interval = 900 and now = 2 and force = False and k = 1 and now' = 3]
  note t3 = trigger_and_single_refresh[where sys = initial_system and source_id = "u ''site1''"
      and refresh_interval = 900 and now = 0 and force = True and k = 0 and now' = 1]
  have a: "trigger_refresh_if_needed 900 2 busy_system (u ''site1'') True = (False, busy_system)"
    using t1 h1 by blast
  have b: "trigger_refresh_if_needed 900 2 busy_system (u ''site1'') False = (False, busy_system)"
    using t2 h1 by blast
  have c: "length (refreshing busy_system (u ''site1'')) \<le> 1"
    "in_progress (states busy_system (u ''site1'')) \<longleftrightarrow> refreshing busy_system (u ''site1'') \<noteq> []"
    using t1 reachable_busy_system by blast+
  have d: "thread_begin busy_system 1
      = busy_system\<lparr>threads := take 1 (threads busy_system) @ drop (Suc 1) (threads busy_system)\<rparr>"
    using t1 h2 h3 by blast
  have e: "fst (trigger_refresh_if_needed 900 0 initial_system (u ''site1'') True)"
    "fst (trigger_refresh_if_needed 900 1
            (snd (trigger_refresh_if_needed 900 0 initial_system (u ''site1'') True))
            (u ''site1'') True)"
    using t3 h4 by blast+
  from c(2) h1 have c2: "refreshing busy_system (u ''site1'') \<noteq> []" by simp
  from d have d': "thread_begin busy_system 1 = busy_system\<lparr>threads := [site1_thread Scraping]\<rparr>"
    by (simp only: tk)
  from h1 reachable_busy_system h2 h3 a b c(1) c2 d' h4 e show ?thesis by (intro conjI)
qed

text \<open>
  From the system with no thread, a forced trigger for \<open>site1\<close> returns \<open>True\<close> and adds a
  thread, the flag of \<open>site1\<close> is still not set, and a second forced trigger returns \<open>True\<close>
  and adds a second thread.
\<close>

theorem trigger_and_single_refresh_counterexample:
  "\<not> in_progress (states initial_system (u ''site1''))
   \<and> trigger_refresh_if_needed 900 0 initial_system (u ''site1'') True
       = (True, initial_system\<lparr>threads := [site1_thread Spawned]\<rparr>)
   \<and> \<not> in_progress (states (initial_system\<lparr>threads := [site1_thread Spawned]\<rparr>) (u ''site1''))
   \<and> trigger_refresh_if_needed 900 1 (initial_system\<lparr>threads := [site1_thread Spawned]\<rparr>)
         (u ''site1'') True
       = (True, initial_system\<lparr>threads := [site1_thread Spawned, site1_thread Spawned]\<rparr>)"
  by (simp add: trigger_refresh_if_needed_def Let_def initial_system_def example_state_def
        site1_thread_def)

end
